theory Spec2Isabelle
  imports Main "HOL-Library.Word"
begin

section \<open>Batched insert statements (preparObjectsSQL, preparSegmentsSQL)\<close>

text \<open>
  Go's \<^verbatim>\<open>int\<close> is 64 bits wide on the platforms the migration tool is built for.
  The arithmetic of the statement builders is written over the mathematical integers
  with the two's-complement wrap-around of every \<^verbatim>\<open>+\<close> and \<^verbatim>\<open>*\<close> made explicit.
\<close>

definition wrap_int :: "int \<Rightarrow> int" where
  "wrap_int x = (x + 2 ^ 63) mod 2 ^ 64 - 2 ^ 63"

text \<open>\<^verbatim>\<open>%d\<close> of \<^verbatim>\<open>fmt.Sprintf\<close>: the decimal digits, with a sign for negative numbers.\<close>

fun digits :: "nat \<Rightarrow> string" where
  "digits n =
     (if n < 10 then [''0123456789'' ! n]
      else digits (n div 10) @ [''0123456789'' ! (n mod 10)])"

declare digits.simps [simp del]

definition fmt_d :: "int \<Rightarrow> string" where
  "fmt_d i = (if i < 0 then CHR ''-'' # digits (nat (- i)) else digits (nat i))"

text \<open>\<^verbatim>\<open>strings.HasSuffix\<close> and \<^verbatim>\<open>strings.TrimSuffix\<close>.\<close>

definition HasSuffix :: "string \<Rightarrow> string \<Rightarrow> bool" where
  "HasSuffix s suffix =
     (length suffix \<le> length s \<and> drop (length s - length suffix) s = suffix)"

definition TrimSuffix :: "string \<Rightarrow> string \<Rightarrow> string" where
  "TrimSuffix s suffix =
     (if HasSuffix s suffix then take (length s - length suffix) s else s)"

definition batchSize :: int where
  "batchSize = 500"

definition objectsArgs :: int where
  "objectsArgs = 10"

definition segmentsArgs :: int where
  "segmentsArgs = 8"

text \<open>The raw string literals the two statements start with (line feeds and tabs as in the source).\<close>

definition objects_sql_head :: string where
  "objects_sql_head =
     [CHR 0x0A, CHR 0x09, CHR 0x09] @ ''INSERT INTO objects ('' @
     [CHR 0x0A, CHR 0x09, CHR 0x09, CHR 0x09, CHR 0x09] @
       ''project_id, bucket_name, encrypted_path, version, stream_id,'' @
     [CHR 0x0A, CHR 0x09, CHR 0x09, CHR 0x09, CHR 0x09] @ ''created_at, expires_at,'' @
     [CHR 0x0A, CHR 0x09, CHR 0x09, CHR 0x09, CHR 0x09] @ ''status, segment_count,'' @
     [CHR 0x0A, CHR 0x09, CHR 0x09, CHR 0x09, CHR 0x09] @ ''encrypted_metadata_nonce'' @
     [CHR 0x0A, CHR 0x09, CHR 0x09] @ '') VALUES '' @
     [CHR 0x0A, CHR 0x09]"

definition segments_sql_head :: string where
  "segments_sql_head =
     ''INSERT INTO segments ('' @
     [CHR 0x0A, CHR 0x09, CHR 0x09] @ ''stream_id, segment_position, root_piece_id,'' @
     [CHR 0x0A, CHR 0x09, CHR 0x09] @ ''encrypted_key, encrypted_key_nonce,'' @
     [CHR 0x0A, CHR 0x09, CHR 0x09] @ ''data_size, inline_data,'' @
     [CHR 0x0A, CHR 0x09, CHR 0x09] @ ''node_aliases'' @
     [CHR 0x0A, CHR 0x09] @ '') VALUES '' @
     [CHR 0x0A, CHR 0x09]"

text \<open>
  \<^verbatim>\<open>fmt.Sprintf("($%d, $%d, $%d, $%d, $%d, $%d, $%d, $%d, $%d, $%d),", i, i+1, ..., i+9)\<close>
  and its eight-argument sibling.
\<close>

definition Sprintf_objects :: "int \<Rightarrow> string" where
  "Sprintf_objects i =
     ''($'' @ fmt_d i @
     '', $'' @ fmt_d (wrap_int (i + 1)) @
     '', $'' @ fmt_d (wrap_int (i + 2)) @
     '', $'' @ fmt_d (wrap_int (i + 3)) @
     '', $'' @ fmt_d (wrap_int (i + 4)) @
     '', $'' @ fmt_d (wrap_int (i + 5)) @
     '', $'' @ fmt_d (wrap_int (i + 6)) @
     '', $'' @ fmt_d (wrap_int (i + 7)) @
     '', $'' @ fmt_d (wrap_int (i + 8)) @
     '', $'' @ fmt_d (wrap_int (i + 9)) @ ''),''"

definition Sprintf_segments :: "int \<Rightarrow> string" where
  "Sprintf_segments i =
     ''($'' @ fmt_d i @
     '', $'' @ fmt_d (wrap_int (i + 1)) @
     '', $'' @ fmt_d (wrap_int (i + 2)) @
     '', $'' @ fmt_d (wrap_int (i + 3)) @
     '', $'' @ fmt_d (wrap_int (i + 4)) @
     '', $'' @ fmt_d (wrap_int (i + 5)) @
     '', $'' @ fmt_d (wrap_int (i + 6)) @
     '', $'' @ fmt_d (wrap_int (i + 7)) @ ''),''"

text \<open>
  The loop \<^verbatim>\<open>for i < batchSize*objectsArgs { sql += ...; i += objectsArgs }\<close>.
  With wrap-around the loop need not end, so not returning is the value \<open>None\<close>.
\<close>

partial_function (option) preparObjectsSQL_loop :: "int \<Rightarrow> int \<Rightarrow> string \<Rightarrow> string option" where
  "preparObjectsSQL_loop n i sql =
     (if i < wrap_int (n * objectsArgs)
      then preparObjectsSQL_loop n (wrap_int (i + objectsArgs)) (sql @ Sprintf_objects i)
      else Some sql)"

declare preparObjectsSQL_loop.simps [code]

definition preparObjectsSQL :: "int \<Rightarrow> string option" where
  "preparObjectsSQL n =
     (case preparObjectsSQL_loop n 1 objects_sql_head of
        None \<Rightarrow> None
      | Some sql \<Rightarrow> Some (TrimSuffix sql '',''))"

partial_function (option) preparSegmentsSQL_loop :: "int \<Rightarrow> int \<Rightarrow> string \<Rightarrow> string option" where
  "preparSegmentsSQL_loop n i sql =
     (if i < wrap_int (n * segmentsArgs)
      then preparSegmentsSQL_loop n (wrap_int (i + segmentsArgs)) (sql @ Sprintf_segments i)
      else Some sql)"

declare preparSegmentsSQL_loop.simps [code]

definition preparSegmentsSQL :: "int \<Rightarrow> string option" where
  "preparSegmentsSQL n =
     (case preparSegmentsSQL_loop n 1 segments_sql_head of
        None \<Rightarrow> None
      | Some sql \<Rightarrow> Some (TrimSuffix sql '',''))"

text \<open>
  The statement shape of the specification, written independently of the loops:
  \<^verbatim>\<open>($1,...,$k),($k+1,...,$2k),...\<close> for \<open>n\<close> rows of \<open>k\<close> columns.
\<close>

fun join :: "string \<Rightarrow> string list \<Rightarrow> string" where
  "join sep [] = []"
| "join sep [x] = x"
| "join sep (x # y # ys) = x @ sep @ join sep (y # ys)"

definition placeholder :: "nat \<Rightarrow> string" where
  "placeholder k = CHR ''$'' # fmt_d (int k)"

definition value_tuple :: "nat \<Rightarrow> nat \<Rightarrow> string" where
  "value_tuple k r =
     ''('' @ join '', '' (map (\<lambda>j. placeholder (k * r + j + 1)) [0..<k]) @ '')''"

definition values_clause :: "nat \<Rightarrow> nat \<Rightarrow> string" where
  "values_clause k n = join '','' (map (value_tuple k) [0..<n])"

section \<open>The legacy records and the rows of the new schema\<close>

text \<open>
  Byte slices and Go strings are lists of bytes; \<^verbatim>\<open>int64\<close>, \<^verbatim>\<open>uint64\<close>, \<^verbatim>\<open>int32\<close> and
  \<^verbatim>\<open>uint32\<close> values are machine words, so that the conversions \<^verbatim>\<open>uint32(segmentIndex)\<close>
  and \<^verbatim>\<open>int32(pointer.SegmentSize)\<close> truncate as they do in Go. A \<^verbatim>\<open>time.Time\<close> is kept
  as an integer instant.
\<close>

type_synonym bytes = string

type_synonym UUID = "128 word"

type_synonym NodeID = "256 word"

type_synonym time = int

datatype error = Error string

text \<open>The fields of \<^verbatim>\<open>pb.Pointer\<close>, \<^verbatim>\<open>pb.RemoteSegment\<close> and \<^verbatim>\<open>pb.StreamMeta\<close> the migrator reads.\<close>

record SegmentMeta =
  EncryptedKey :: bytes
  KeyNonce :: bytes

record StreamMeta =
  NumberOfSegments :: "64 word"
  LastSegmentMeta :: "SegmentMeta option"

record RemotePiece =
  PieceNum :: "32 word"
  NodeId :: NodeID

record RemoteSegment =
  RootPieceId :: bytes
  RemotePieces :: "RemotePiece list"

record Pointer =
  InlineSegment :: bytes
  Remote :: "RemoteSegment option"
  SegmentSize :: "64 word"
  CreationDate :: time
  ExpirationDate :: time
  Metadata :: bytes

record SegmentPosition =
  Part :: "32 word"
  Segment :: "32 word"

text \<open>
  Modelled from the spec: the declaration of the object status is not among the sources;
  the migrator only ever writes the status \<^emph>\<open>committed\<close>.
\<close>

datatype ObjectStatus = Pending | Committed

text \<open>The values appended to the \<^verbatim>\<open>[]interface{}\<close> buffers, by their Go type.\<close>

datatype arg =
  ArgUUID UUID
| ArgBytes bytes
| ArgInt int
| ArgInt32 "32 word"
| ArgInt64 "64 word"
| ArgUint64 "64 word"
| ArgTime time
| ArgStatus ObjectStatus

record ListItem =
  Key :: bytes
  Value :: bytes

text \<open>
  What one call of \<^verbatim>\<open>storage.ListV2Iterate\<close> yields: the items handed to the callback in
  order, whether the listing was truncated, and the error of the store, if any.
\<close>

record listing =
  Items :: "ListItem list"
  More :: bool
  ListError :: "error option"

text \<open>
  The collaborators of the migrator whose code is outside the sources are parameters:
  protobuf decoding, the legacy key construction, the legacy store's point lookup and
  listing, identifier generation, the target database and the two binary encodings.
  \<open>NewUUID_nth k\<close> is the result of the \<open>k\<close>-th call of \<^verbatim>\<open>NewUUID\<close>; \<open>Metabase_Exec\<close>
  decides from the statements submitted so far whether a statement fails.
\<close>

record env =
  Unmarshal_Pointer :: "bytes \<Rightarrow> error + Pointer"
  Unmarshal_StreamMeta :: "bytes \<Rightarrow> error + StreamMeta"
  CreatePath :: "UUID \<Rightarrow> 64 word \<Rightarrow> bytes \<Rightarrow> bytes \<Rightarrow> error + bytes"
  PointerDB_Get :: "bytes \<Rightarrow> error + bytes"
  PointerDB_List :: "bytes \<Rightarrow> bytes \<Rightarrow> listing"
  NewUUID_nth :: "nat \<Rightarrow> error + UUID"
  Metabase_Exec :: "(string \<times> arg list) list \<Rightarrow> string \<Rightarrow> arg list \<Rightarrow> error option"
  SegmentPosition_Encode :: "SegmentPosition \<Rightarrow> 64 word"
  NodeAliases_Encode :: "32 word list \<Rightarrow> bytes"

section \<open>The migrator\<close>

text \<open>
  The \<^verbatim>\<open>Migrator\<close> struct. \<open>Metabase\<close> holds the statements submitted to the target
  database so far, each with its arguments; \<open>UUIDs\<close> counts the calls of \<^verbatim>\<open>NewUUID\<close>.
  Every method returns the error (\<open>None\<close> for \<^verbatim>\<open>nil\<close>) together with the migrator as the
  call left it, since a failing call keeps what it had already appended.
\<close>

record Migrator =
  ProjectID :: UUID
  BucketName :: bytes
  BatchSize :: int
  ObjectsSQL :: string
  Objects :: "arg list"
  SegmentsSQL :: string
  Segments :: "arg list"
  Metabase :: "(string \<times> arg list) list"
  UUIDs :: nat

definition NewMigrator :: "UUID \<Rightarrow> bytes \<Rightarrow> Migrator option" where
  "NewMigrator projectID bucketName =
     (case preparObjectsSQL batchSize of
        None \<Rightarrow> None
      | Some osql \<Rightarrow>
          (case preparSegmentsSQL batchSize of
             None \<Rightarrow> None
           | Some ssql \<Rightarrow>
               Some \<lparr>ProjectID = projectID, BucketName = bucketName, BatchSize = batchSize,
                     ObjectsSQL = osql, Objects = [], SegmentsSQL = ssql, Segments = [],
                     Metabase = [], UUIDs = 0\<rparr>))"

text \<open>\<^verbatim>\<open>m.Metabase.Exec(ctx, sql, args...)\<close>: the statement is submitted and may fail.\<close>

definition Exec :: "env \<Rightarrow> Migrator \<Rightarrow> string \<Rightarrow> arg list \<Rightarrow> error option \<times> Migrator" where
  "Exec e m sql args =
     (Metabase_Exec e (Metabase m) sql args, m\<lparr>Metabase := Metabase m @ [(sql, args)]\<rparr>)"

definition sendObjects :: "env \<Rightarrow> Migrator \<Rightarrow> error option \<times> Migrator" where
  "sendObjects e m =
     (if length (Objects m) = 0 then (None, m)
      else (case Exec e m (ObjectsSQL m) (Objects m) of
              (Some err, m') \<Rightarrow> (Some err, m')
            | (None, m') \<Rightarrow> (None, m'\<lparr>Objects := []\<rparr>)))"

definition sendSegments :: "env \<Rightarrow> Migrator \<Rightarrow> error option \<times> Migrator" where
  "sendSegments e m =
     (if length (Segments m) = 0 then (None, m)
      else (case Exec e m (SegmentsSQL m) (Segments m) of
              (Some err, m') \<Rightarrow> (Some err, m')
            | (None, m') \<Rightarrow> (None, m'\<lparr>Segments := []\<rparr>)))"

text \<open>
  \<^verbatim>\<open>insertSegment\<close>. The stream metadata is \<open>None\<close> for \<^verbatim>\<open>nil\<close>; it is then decoded from
  the pointer's own metadata.
\<close>

definition insertSegment ::
  "env \<Rightarrow> Migrator \<Rightarrow> UUID \<Rightarrow> 64 word \<Rightarrow> Pointer \<Rightarrow> StreamMeta option \<Rightarrow> error option \<times> Migrator"
where
  "insertSegment e m streamID segmentIndex pointer streamMeta =
     (let segmentPosition = \<lparr>Part = 0, Segment = ucast segmentIndex\<rparr>;
          rootPieceID = (case Remote pointer of None \<Rightarrow> [] | Some r \<Rightarrow> RootPieceId r)
      in case (case streamMeta of
                 None \<Rightarrow> Unmarshal_StreamMeta e (Metadata pointer)
               | Some sm \<Rightarrow> Inr sm) of
           Inl err \<Rightarrow> (Some err, m)
         | Inr sm \<Rightarrow>
             (let encryptedKey =
                    (case LastSegmentMeta sm of None \<Rightarrow> [] | Some l \<Rightarrow> EncryptedKey l);
                  encryptedKeyNonce =
                    (case LastSegmentMeta sm of None \<Rightarrow> [] | Some l \<Rightarrow> KeyNonce l);
                  m1 = m\<lparr>Segments := Segments m @
                         [ArgUUID streamID, ArgUint64 (SegmentPosition_Encode e segmentPosition),
                          ArgBytes rootPieceID,
                          ArgBytes encryptedKey, ArgBytes encryptedKeyNonce,
                          ArgInt32 (ucast (SegmentSize pointer)), ArgBytes (InlineSegment pointer),
                          ArgBytes (NodeAliases_Encode e [1])]\<rparr>
              in if int (length (Segments m1)) div segmentsArgs \<ge> BatchSize m1
                 then sendSegments e m1
                 else (None, m1)))"

text \<open>
  The loop of \<^verbatim>\<open>insertObject\<close> over the segments before the last one,
  \<^verbatim>\<open>for i := int64(0); i < segmentsCount-1; i++\<close>. The bound is the signed value of
  \<^verbatim>\<open>segmentsCount-1\<close>; since \<open>i < bound\<close> holds whenever \<open>i\<close> is incremented, \<^verbatim>\<open>i++\<close> cannot
  overflow.
\<close>

function insertObject_loop ::
  "env \<Rightarrow> UUID \<Rightarrow> bytes \<Rightarrow> int \<Rightarrow> int \<Rightarrow> Migrator \<Rightarrow> error option \<times> Migrator"
where
  "insertObject_loop e streamID encryptedPath i bound m =
     (if i < bound then
        (case CreatePath e (ProjectID m) (word_of_int i) (BucketName m) encryptedPath of
           Inl err \<Rightarrow> (Some err, m)
         | Inr path \<Rightarrow>
             (case PointerDB_Get e path of
                Inl err \<Rightarrow> (Some err, m)
              | Inr v \<Rightarrow>
                  (case Unmarshal_Pointer e v of
                     Inl err \<Rightarrow> (Some err, m)
                   | Inr segmentPointer \<Rightarrow>
                       (case insertSegment e m streamID (word_of_int i) segmentPointer None of
                          (Some err, m') \<Rightarrow> (Some err, m')
                        | (None, m') \<Rightarrow>
                            insertObject_loop e streamID encryptedPath (i + 1) bound m'))))
      else (None, m))"
  by pat_completeness auto
termination
  by (relation "measure (\<lambda>(e, streamID, encryptedPath, i, bound, m). nat (bound - i))") auto

declare insertObject_loop.simps [simp del]

definition insertObject :: "env \<Rightarrow> Migrator \<Rightarrow> bytes \<Rightarrow> Pointer \<Rightarrow> error option \<times> Migrator" where
  "insertObject e m encryptedPath pointer =
     (case Unmarshal_StreamMeta e (Metadata pointer) of
        Inl err \<Rightarrow> (Some err, m)
      | Inr streamMeta \<Rightarrow>
          (let segmentsCount = NumberOfSegments streamMeta
           in if segmentsCount = 0 then (Some (Error ''unsupported case''), m)
              else
                (let m0 = m\<lparr>UUIDs := Suc (UUIDs m)\<rparr>
                 in case NewUUID_nth e (UUIDs m) of
                      Inl err \<Rightarrow> (Some err, m0)
                    | Inr streamID \<Rightarrow>
                        (let m1 = m0\<lparr>Objects := Objects m0 @
                                   [ArgUUID (ProjectID m0), ArgBytes (BucketName m0),
                                    ArgBytes encryptedPath, ArgInt (- 1), ArgUUID streamID,
                                    ArgTime (CreationDate pointer), ArgTime (ExpirationDate pointer),
                                    ArgStatus Committed, ArgInt64 segmentsCount,
                                    ArgBytes (Metadata pointer)]\<rparr>
                         in case (if int (length (Objects m1)) div objectsArgs \<ge> BatchSize m1
                                  then sendObjects e m1 else (None, m1)) of
                              (Some err, m2) \<Rightarrow> (Some err, m2)
                            | (None, m2) \<Rightarrow>
                                (case insertSegment e m2 streamID (segmentsCount - 1) pointer
                                        (Some streamMeta) of
                                   (Some err, m3) \<Rightarrow> (Some err, m3)
                                 | (None, m3) \<Rightarrow>
                                     insertObject_loop e streamID encryptedPath 0
                                       (sint (segmentsCount - 1)) m3)))))"

text \<open>
  How a call ends: it returns \<^verbatim>\<open>nil\<close>, returns an error, or panics (the Go runtime's
  index check).
\<close>

datatype outcome = Done | Failed error | Panic string

text \<open>
  The callback \<^verbatim>\<open>MigrateBucket\<close> passes to the listing, over the migrator and the captured
  \<^verbatim>\<open>lastKey\<close>. \<^verbatim>\<open>encodedPath[0]\<close> is an index expression on the key: out of range on an
  empty key.
\<close>

definition migrate_item ::
  "env \<Rightarrow> Migrator \<times> bytes \<Rightarrow> ListItem \<Rightarrow> outcome \<times> Migrator \<times> bytes"
where
  "migrate_item e st item =
     (case st of (m, lastKey) \<Rightarrow>
        (case Unmarshal_Pointer e (Value item) of
           Inl err \<Rightarrow> (Failed err, m, lastKey)
         | Inr pointer \<Rightarrow>
             (case Key item of
                [] \<Rightarrow> (Panic ''index out of range [0] with length 0'', m, lastKey)
              | c # rest \<Rightarrow>
                  (let encodedPath = (if c = CHR ''/'' then rest else Key item)
                   in case insertObject e m encodedPath pointer of
                        (Some err, m') \<Rightarrow> (Failed err, m', lastKey)
                      | (None, m') \<Rightarrow> (Done, m', Key item)))))"

text \<open>
  Modelled from the spec: \<^verbatim>\<open>storage.ListV2Iterate\<close> is not among the sources. Following
  the Legacy Pointer Reader of the specification, one call hands the items of the page
  that starts after the continuation key to the callback in key order, stops at the first
  item the callback fails on, and reports whether more items remain.
\<close>

fun iterate_items ::
  "env \<Rightarrow> ListItem list \<Rightarrow> Migrator \<times> bytes \<Rightarrow> outcome \<times> Migrator \<times> bytes"
where
  "iterate_items e [] st = (Done, st)"
| "iterate_items e (item # items) st =
     (case migrate_item e st item of
        (Done, st') \<Rightarrow> iterate_items e items st'
      | (out, st') \<Rightarrow> (out, st'))"

definition ListV2Iterate ::
  "env \<Rightarrow> bytes \<Rightarrow> bytes \<Rightarrow> Migrator \<Rightarrow> bool \<times> outcome \<times> Migrator \<times> bytes"
where
  "ListV2Iterate e prefix startAfter m =
     (let page = PointerDB_List e prefix startAfter
      in case iterate_items e (Items page) (m, startAfter) of
           (Done, st') \<Rightarrow>
             (case ListError page of
                Some err \<Rightarrow> (False, Failed err, st')
              | None \<Rightarrow> (More page, Done, st'))
         | (out, st') \<Rightarrow> (False, out, st'))"

text \<open>
  The loop \<^verbatim>\<open>for more { more, err = storage.ListV2Iterate(...); if err != nil { return err } }\<close>
  of \<^verbatim>\<open>MigrateBucket\<close>. A listing that reports more items forever keeps the loop running:
  not returning is the value \<open>None\<close>.
\<close>

partial_function (option) MigrateBucket_loop ::
  "env \<Rightarrow> bytes \<Rightarrow> bool \<Rightarrow> bytes \<Rightarrow> Migrator \<Rightarrow> (outcome \<times> Migrator) option"
where
  "MigrateBucket_loop e path more0 lastKey m =
     (if more0 then
        (case ListV2Iterate e path lastKey m of
           (more1, Done, m', lastKey') \<Rightarrow> MigrateBucket_loop e path more1 lastKey' m'
         | (more1, out, m', lastKey') \<Rightarrow> Some (out, m'))
      else Some (Done, m))"

declare MigrateBucket_loop.simps [code]

text \<open>The two flushes at the end of \<^verbatim>\<open>MigrateBucket\<close>, each sized by its buffer.\<close>

definition flush_remaining :: "env \<Rightarrow> Migrator \<Rightarrow> (outcome \<times> Migrator) option" where
  "flush_remaining e m =
     (case (if length (Objects m) \<noteq> 0 then
              (case preparObjectsSQL (int (length (Objects m)) div objectsArgs) of
                 None \<Rightarrow> None
               | Some sql \<Rightarrow> Some (Exec e m sql (Objects m)))
            else Some (None, m)) of
        None \<Rightarrow> None
      | Some (Some err, m1) \<Rightarrow> Some (Failed err, m1)
      | Some (None, m1) \<Rightarrow>
          (if length (Segments m1) \<noteq> 0 then
             (case preparSegmentsSQL (int (length (Segments m1)) div segmentsArgs) of
                None \<Rightarrow> None
              | Some sql \<Rightarrow>
                  (case Exec e m1 sql (Segments m1) of
                     (Some err, m2) \<Rightarrow> Some (Failed err, m2)
                   | (None, m2) \<Rightarrow> Some (Done, m2)))
           else Some (Done, m1)))"

definition MigrateBucket :: "env \<Rightarrow> Migrator \<Rightarrow> (outcome \<times> Migrator) option" where
  "MigrateBucket e m =
     (case CreatePath e (ProjectID m) (- 1) (BucketName m) [] of
        Inl err \<Rightarrow> Some (Failed err, m)
      | Inr path \<Rightarrow>
          (case MigrateBucket_loop e path True [] m of
             None \<Rightarrow> None
           | Some (Done, m') \<Rightarrow> flush_remaining e m'
           | Some (out, m') \<Rightarrow> Some (out, m')))"

section \<open>Rows and the batch writer\<close>

text \<open>
  Names for what \<^verbatim>\<open>insertObject\<close> and \<^verbatim>\<open>insertSegment\<close> do inline: the ten values of an
  object row, the eight values of a segment row, and the hand-over of a row to a buffer
  (append, then send the buffer when it holds \<open>BatchSize\<close> rows), which is the
  specification's Batch Writer. The properties below are stated with them.
\<close>

definition object_row :: "Migrator \<Rightarrow> bytes \<Rightarrow> Pointer \<Rightarrow> UUID \<Rightarrow> 64 word \<Rightarrow> arg list" where
  "object_row m encryptedPath pointer streamID segmentsCount =
     [ArgUUID (ProjectID m), ArgBytes (BucketName m), ArgBytes encryptedPath, ArgInt (- 1),
      ArgUUID streamID, ArgTime (CreationDate pointer), ArgTime (ExpirationDate pointer),
      ArgStatus Committed, ArgInt64 segmentsCount, ArgBytes (Metadata pointer)]"

definition last_segment_key :: "StreamMeta \<Rightarrow> bytes" where
  "last_segment_key sm = (case LastSegmentMeta sm of None \<Rightarrow> [] | Some l \<Rightarrow> EncryptedKey l)"

definition last_segment_nonce :: "StreamMeta \<Rightarrow> bytes" where
  "last_segment_nonce sm = (case LastSegmentMeta sm of None \<Rightarrow> [] | Some l \<Rightarrow> KeyNonce l)"

definition segment_row :: "env \<Rightarrow> UUID \<Rightarrow> 32 word \<Rightarrow> Pointer \<Rightarrow> StreamMeta \<Rightarrow> arg list" where
  "segment_row e streamID index pointer sm =
     [ArgUUID streamID, ArgUint64 (SegmentPosition_Encode e \<lparr>Part = 0, Segment = index\<rparr>),
      ArgBytes (case Remote pointer of None \<Rightarrow> [] | Some r \<Rightarrow> RootPieceId r),
      ArgBytes (last_segment_key sm), ArgBytes (last_segment_nonce sm),
      ArgInt32 (ucast (SegmentSize pointer)), ArgBytes (InlineSegment pointer),
      ArgBytes (NodeAliases_Encode e [1])]"

text \<open>
  The segment rows of one object in the order \<^verbatim>\<open>insertObject\<close> hands them over: the row of
  the last segment, built from the listed record and its stream metadata, then the rows of
  the segments \<open>0, 1, ...\<close> before the last, built from the records \<open>ptr i\<close> and the stream
  metadata \<open>meta i\<close> decoded from each record's own metadata.
\<close>

definition object_segment_rows ::
  "env \<Rightarrow> UUID \<Rightarrow> Pointer \<Rightarrow> StreamMeta \<Rightarrow> (int \<Rightarrow> Pointer) \<Rightarrow> (int \<Rightarrow> StreamMeta) \<Rightarrow>
   arg list list"
where
  "object_segment_rows e streamID pointer sm ptr meta =
     segment_row e streamID (word_of_int (sint (NumberOfSegments sm) - 1)) pointer sm #
     map (\<lambda>i. segment_row e streamID (word_of_int i) (ptr i) (meta i))
       [0..sint (NumberOfSegments sm) - 2]"

definition push_object :: "env \<Rightarrow> Migrator \<Rightarrow> arg list \<Rightarrow> error option \<times> Migrator" where
  "push_object e m row =
     (let m1 = m\<lparr>Objects := Objects m @ row\<rparr>
      in if int (length (Objects m1)) div objectsArgs \<ge> BatchSize m1
         then sendObjects e m1 else (None, m1))"

definition push_segment :: "env \<Rightarrow> Migrator \<Rightarrow> arg list \<Rightarrow> error option \<times> Migrator" where
  "push_segment e m row =
     (let m1 = m\<lparr>Segments := Segments m @ row\<rparr>
      in if int (length (Segments m1)) div segmentsArgs \<ge> BatchSize m1
         then sendSegments e m1 else (None, m1))"

fun push_segments :: "env \<Rightarrow> Migrator \<Rightarrow> arg list list \<Rightarrow> error option \<times> Migrator" where
  "push_segments e m [] = (None, m)"
| "push_segments e m (row # rows) =
     (case push_segment e m row of
        (Some err, m') \<Rightarrow> (Some err, m')
      | (None, m') \<Rightarrow> push_segments e m' rows)"

text \<open>
  The state of the loop of \<^verbatim>\<open>MigrateBucket\<close> after \<open>k\<close> pages that each ended without
  an error and reported more items: the continuation key and the migrator.
\<close>

fun after_pages :: "env \<Rightarrow> bytes \<Rightarrow> nat \<Rightarrow> bytes \<times> Migrator \<Rightarrow> (bytes \<times> Migrator) option" where
  "after_pages e path 0 c = Some c"
| "after_pages e path (Suc k) c =
     (case ListV2Iterate e path (fst c) (snd c) of
        (True, Done, m', lastKey') \<Rightarrow> after_pages e path k (lastKey', m')
      | _ \<Rightarrow> None)"

section \<open>The segment store: piece-list validation and UpdateSegmentPieces\<close>

record Piece =
  Number :: nat
  StorageNode :: NodeID

type_synonym Pieces = "Piece list"

record Position =
  PosPart :: "32 word"
  Index :: "32 word"

text \<open>The three error classes \<^verbatim>\<open>TestUpdateSegmentPieces\<close> expects, each with its text.\<close>

datatype request_error =
  ErrInvalidRequest string
| ErrSegmentNotFound string
| ErrValueChanged string

record RawObject =
  Status :: ObjectStatus
  SegmentCount :: int
  TotalPlainSize :: int
  TotalEncryptedSize :: int
  FixedSegmentSize :: int

record RawSegment =
  SegRootPieceID :: bytes
  SegEncryptedKey :: bytes
  SegEncryptedKeyNonce :: bytes
  SegEncryptedSize :: int
  SegInlineData :: bytes
  SegPieces :: Pieces

text \<open>
  The stored rows: objects by stream identifier, segments by stream identifier and
  position (the identity of a segment).
\<close>

record DB =
  db_objects :: "UUID \<rightharpoonup> RawObject"
  db_segments :: "UUID \<times> Position \<rightharpoonup> RawSegment"

record UpdateSegmentPiecesOpts =
  StreamID :: UUID
  Position :: Position
  OldPieces :: Pieces
  NewPieces :: Pieces

text \<open>The three invariants of a piece list, as the data model of the specification states them.\<close>

definition well_formed :: "Pieces \<Rightarrow> bool" where
  "well_formed ps =
     (ps \<noteq> [] \<and> sorted_wrt (<) (map Number ps) \<and> (\<forall>p \<in> set ps. StorageNode p \<noteq> 0))"

text \<open>
  Modelled from the spec: the piece-list validator (\<^verbatim>\<open>Pieces.Verify\<close>) is not among the
  sources, only its test is. The checks and their order are those of the specification's
  Piece-List Validator: the empty list first, then one scan for the order of the piece
  numbers, then one scan for the storage-node identifiers. The message texts are the ones
  \<^verbatim>\<open>TestUpdateSegmentPieces\<close> expects.
\<close>

fun scan_ascending :: "Pieces \<Rightarrow> string option" where
  "scan_ascending (p # q # ps) =
     (if Number q \<le> Number p then
        (if Number q = Number p
         then Some (''duplicated piece number '' @ fmt_d (int (Number q)))
         else Some ''pieces should be ordered'')
      else scan_ascending (q # ps))"
| "scan_ascending ps = None"

fun scan_nodes :: "Pieces \<Rightarrow> string option" where
  "scan_nodes [] = None"
| "scan_nodes (p # ps) =
     (if StorageNode p = 0
      then Some (''piece number '' @ fmt_d (int (Number p)) @ '' is missing storage node id'')
      else scan_nodes ps)"

definition Verify :: "Pieces \<Rightarrow> string option" where
  "Verify ps =
     (if ps = [] then Some ''pieces missing''
      else (case scan_ascending ps of
              Some msg \<Rightarrow> Some msg
            | None \<Rightarrow> scan_nodes ps))"

text \<open>
  Modelled from the spec: the body of \<^verbatim>\<open>UpdateSegmentPieces\<close> is not among the sources,
  only its test is. The steps are those of the specification's optimistic piece update:
  the stream identifier, then the old and the new piece list are checked before the
  segment is looked up; the write happens only when the stored pieces equal the old ones.
  The error classes and texts are the ones \<^verbatim>\<open>TestUpdateSegmentPieces\<close> expects.
\<close>

definition UpdateSegmentPieces ::
  "DB \<Rightarrow> UpdateSegmentPiecesOpts \<Rightarrow> request_error option \<times> DB"
where
  "UpdateSegmentPieces db opts =
     (if StreamID opts = 0 then (Some (ErrInvalidRequest ''StreamID missing''), db)
      else
        (case Verify (OldPieces opts) of
           Some msg \<Rightarrow> (Some (ErrInvalidRequest (''OldPieces: '' @ msg)), db)
         | None \<Rightarrow>
             (case Verify (NewPieces opts) of
                Some msg \<Rightarrow> (Some (ErrInvalidRequest (''NewPieces: '' @ msg)), db)
              | None \<Rightarrow>
                  (case db_segments db (StreamID opts, Position opts) of
                     None \<Rightarrow> (Some (ErrSegmentNotFound ''segment missing''), db)
                   | Some seg \<Rightarrow>
                       (if SegPieces seg = OldPieces opts
                        then (None,
                              db\<lparr>db_segments := (db_segments db)
                                   ((StreamID opts, Position opts) \<mapsto>
                                      seg\<lparr>SegPieces := NewPieces opts\<rparr>)\<rparr>)
                        else (Some (ErrValueChanged ''segment remote_pieces field was changed''),
                              db))))))"

section \<open>Example inputs\<close>

text \<open>
  A stored object with one segment at position (0, 1), and requests against it, after the
  scenarios of \<^verbatim>\<open>TestUpdateSegmentPieces\<close>.
\<close>

definition test_stream :: UUID where
  "test_stream = 1"

definition test_position :: Position where
  "test_position = \<lparr>PosPart = 0, Index = 1\<rparr>"

definition test_segment :: RawSegment where
  "test_segment =
     \<lparr>SegRootPieceID = ''r'', SegEncryptedKey = ''k'', SegEncryptedKeyNonce = ''n'',
      SegEncryptedSize = 1024, SegInlineData = [],
      SegPieces = [\<lparr>Number = 0, StorageNode = 2\<rparr>]\<rparr>"

definition test_object :: RawObject where
  "test_object =
     \<lparr>Status = Committed, SegmentCount = 1, TotalPlainSize = 512,
      TotalEncryptedSize = 1024, FixedSegmentSize = 1024\<rparr>"

definition test_db :: DB where
  "test_db =
     \<lparr>db_objects = [test_stream \<mapsto> test_object],
      db_segments = [(test_stream, test_position) \<mapsto> test_segment]\<rparr>"

definition test_db_zero_stream :: DB where
  "test_db_zero_stream =
     \<lparr>db_objects = Map.empty, db_segments = [(0, test_position) \<mapsto> test_segment]\<rparr>"

definition opts_empty :: UpdateSegmentPiecesOpts where
  "opts_empty = \<lparr>StreamID = 0, Position = \<lparr>PosPart = 0, Index = 0\<rparr>, OldPieces = [], NewPieces = []\<rparr>"

definition opts_duplicated :: UpdateSegmentPiecesOpts where
  "opts_duplicated =
     \<lparr>StreamID = test_stream, Position = \<lparr>PosPart = 0, Index = 0\<rparr>,
      OldPieces = [\<lparr>Number = 1, StorageNode = 5\<rparr>, \<lparr>Number = 1, StorageNode = 6\<rparr>],
      NewPieces = []\<rparr>"

definition opts_changed :: UpdateSegmentPiecesOpts where
  "opts_changed =
     \<lparr>StreamID = test_stream, Position = test_position,
      OldPieces = [\<lparr>Number = 1, StorageNode = 5\<rparr>],
      NewPieces = [\<lparr>Number = 1, StorageNode = 6\<rparr>]\<rparr>"

definition opts_changed_zero_stream :: UpdateSegmentPiecesOpts where
  "opts_changed_zero_stream = opts_changed\<lparr>StreamID := 0\<rparr>"

definition opts_update :: UpdateSegmentPiecesOpts where
  "opts_update =
     \<lparr>StreamID = test_stream, Position = test_position,
      OldPieces = [\<lparr>Number = 0, StorageNode = 2\<rparr>],
      NewPieces = [\<lparr>Number = 1, StorageNode = 5\<rparr>, \<lparr>Number = 2, StorageNode = 6\<rparr>]\<rparr>"

definition test_db_updated :: DB where
  "test_db_updated =
     test_db\<lparr>db_segments := (db_segments test_db)
       ((test_stream, test_position) \<mapsto> test_segment\<lparr>SegPieces := NewPieces opts_update\<rparr>)\<rparr>"

text \<open>
  A small legacy store for the migrator: object \<open>a\<close> of three segments (its segment 0
  carries stream metadata of its own with a last-segment section, its segment 1 does not),
  the inline object \<open>b\<close> of one segment, and the record \<open>z\<close> that declares no segment.
  Serialized records are named by short byte strings and decoded by table lookup; keys are
  built as segment marker, bucket and path.
\<close>

definition ptr_a :: Pointer where
  "ptr_a =
     \<lparr>InlineSegment = [],
      Remote = Some \<lparr>RootPieceId = ''root-a2'',
                     RemotePieces = [\<lparr>PieceNum = 0, NodeId = 7\<rparr>, \<lparr>PieceNum = 1, NodeId = 9\<rparr>]\<rparr>,
      SegmentSize = 100, CreationDate = 1000, ExpirationDate = 0, Metadata = ''meta-a''\<rparr>"

definition ptr_a0 :: Pointer where
  "ptr_a0 =
     \<lparr>InlineSegment = [],
      Remote = Some \<lparr>RootPieceId = ''root-a0'', RemotePieces = [\<lparr>PieceNum = 0, NodeId = 7\<rparr>]\<rparr>,
      SegmentSize = 64, CreationDate = 1000, ExpirationDate = 0, Metadata = ''meta-own''\<rparr>"

definition ptr_a1 :: Pointer where
  "ptr_a1 =
     \<lparr>InlineSegment = [],
      Remote = Some \<lparr>RootPieceId = ''root-a1'', RemotePieces = []\<rparr>,
      SegmentSize = 64, CreationDate = 1000, ExpirationDate = 0, Metadata = ''meta-seg''\<rparr>"

definition ptr_b :: Pointer where
  "ptr_b =
     \<lparr>InlineSegment = ''data'', Remote = None,
      SegmentSize = 4, CreationDate = 2000, ExpirationDate = 3000, Metadata = ''meta-b''\<rparr>"

definition ptr_z :: Pointer where
  "ptr_z =
     \<lparr>InlineSegment = [], Remote = None,
      SegmentSize = 0, CreationDate = 500, ExpirationDate = 0, Metadata = ''meta-z''\<rparr>"

definition meta_a :: StreamMeta where
  "meta_a = \<lparr>NumberOfSegments = 3,
             LastSegmentMeta = Some \<lparr>EncryptedKey = ''key-a'', KeyNonce = ''nonce-a''\<rparr>\<rparr>"

definition meta_own :: StreamMeta where
  "meta_own = \<lparr>NumberOfSegments = 0,
               LastSegmentMeta = Some \<lparr>EncryptedKey = ''key-0'', KeyNonce = ''nonce-0''\<rparr>\<rparr>"

definition meta_seg :: StreamMeta where
  "meta_seg = \<lparr>NumberOfSegments = 0, LastSegmentMeta = None\<rparr>"

definition meta_b :: StreamMeta where
  "meta_b = \<lparr>NumberOfSegments = 1,
             LastSegmentMeta = Some \<lparr>EncryptedKey = ''key-b'', KeyNonce = ''nonce-b''\<rparr>\<rparr>"

definition meta_z :: StreamMeta where
  "meta_z = \<lparr>NumberOfSegments = 0, LastSegmentMeta = None\<rparr>"

definition ex_Unmarshal_Pointer :: "bytes \<Rightarrow> error + Pointer" where
  "ex_Unmarshal_Pointer v =
     (case map_of [(''ptr-a'', ptr_a), (''ptr-a0'', ptr_a0), (''ptr-a1'', ptr_a1),
                   (''ptr-b'', ptr_b), (''ptr-z'', ptr_z)] v of
        None \<Rightarrow> Inl (Error ''proto: cannot parse'')
      | Some p \<Rightarrow> Inr p)"

definition ex_Unmarshal_StreamMeta :: "bytes \<Rightarrow> error + StreamMeta" where
  "ex_Unmarshal_StreamMeta v =
     (case map_of [(''meta-a'', meta_a), (''meta-own'', meta_own), (''meta-seg'', meta_seg),
                   (''meta-b'', meta_b), (''meta-z'', meta_z)] v of
        None \<Rightarrow> Inl (Error ''proto: cannot parse'')
      | Some sm \<Rightarrow> Inr sm)"

definition ex_CreatePath :: "UUID \<Rightarrow> 64 word \<Rightarrow> bytes \<Rightarrow> bytes \<Rightarrow> error + bytes" where
  "ex_CreatePath projectID segmentIndex bucket path =
     (if sint segmentIndex < - 1 then Inl (Error ''invalid segment index'')
      else Inr ((if sint segmentIndex = - 1 then ''l'' else CHR ''s'' # fmt_d (sint segmentIndex)) @
                (if bucket = [] then [] else CHR ''/'' # bucket) @
                (if path = [] then [] else CHR ''/'' # path)))"

definition ex_Get :: "bytes \<Rightarrow> error + bytes" where
  "ex_Get k =
     (case map_of [(''s0/bucket/a'', ''ptr-a0''), (''s1/bucket/a'', ''ptr-a1'')] k of
        None \<Rightarrow> Inl (Error ''key not found'')
      | Some v \<Rightarrow> Inr v)"

definition ex_List :: "ListItem list \<Rightarrow> bytes \<Rightarrow> bytes \<Rightarrow> listing" where
  "ex_List items prefix startAfter =
     (if startAfter = [] then \<lparr>Items = items, More = False, ListError = None\<rparr>
      else \<lparr>Items = [], More = False, ListError = None\<rparr>)"

definition ex_Encode_position :: "SegmentPosition \<Rightarrow> 64 word" where
  "ex_Encode_position p = ucast (Part p) * 2 ^ 32 + ucast (Segment p)"

definition ex_Encode_aliases :: "32 word list \<Rightarrow> bytes" where
  "ex_Encode_aliases aliases = map (\<lambda>a. char_of (unat a)) aliases"

text \<open>
  The environment over a listing of one page and a target database that answers every
  statement with the given result.
\<close>

definition ex_env :: "ListItem list \<Rightarrow> error option \<Rightarrow> env" where
  "ex_env items exec_result =
     \<lparr>Unmarshal_Pointer = ex_Unmarshal_Pointer,
      Unmarshal_StreamMeta = ex_Unmarshal_StreamMeta,
      CreatePath = ex_CreatePath,
      PointerDB_Get = ex_Get,
      PointerDB_List = ex_List items,
      NewUUID_nth = (\<lambda>k. Inr (of_nat k + 100)),
      Metabase_Exec = (\<lambda>log sql args. exec_result),
      SegmentPosition_Encode = ex_Encode_position,
      NodeAliases_Encode = ex_Encode_aliases\<rparr>"

definition ex_migrator :: "int \<Rightarrow> Migrator" where
  "ex_migrator n =
     \<lparr>ProjectID = 42, BucketName = ''bucket'', BatchSize = n,
      ObjectsSQL = objects_sql_head @ values_clause 10 (nat n), Objects = [],
      SegmentsSQL = segments_sql_head @ values_clause 8 (nat n), Segments = [],
      Metabase = [], UUIDs = 0\<rparr>"

definition item_a :: ListItem where
  "item_a = \<lparr>Key = ''/a'', Value = ''ptr-a''\<rparr>"

definition item_b :: ListItem where
  "item_b = \<lparr>Key = ''/b'', Value = ''ptr-b''\<rparr>"

definition item_z :: ListItem where
  "item_z = \<lparr>Key = ''/z'', Value = ''ptr-z''\<rparr>"

definition item_nokey :: ListItem where
  "item_nokey = \<lparr>Key = [], Value = ''ptr-b''\<rparr>"

text \<open>The rows of the objects \<open>a\<close> and \<open>b\<close> in this environment.\<close>

definition row_a_object :: "arg list" where
  "row_a_object =
     [ArgUUID 42, ArgBytes ''bucket'', ArgBytes ''a'', ArgInt (- 1), ArgUUID 100,
      ArgTime 1000, ArgTime 0, ArgStatus Committed, ArgInt64 3, ArgBytes ''meta-a'']"

definition rows_a_segments :: "arg list" where
  "rows_a_segments =
     [ArgUUID 100, ArgUint64 2, ArgBytes ''root-a2'', ArgBytes ''key-a'', ArgBytes ''nonce-a'',
      ArgInt32 100, ArgBytes [], ArgBytes (ex_Encode_aliases [1]),
      ArgUUID 100, ArgUint64 0, ArgBytes ''root-a0'', ArgBytes ''key-0'', ArgBytes ''nonce-0'',
      ArgInt32 64, ArgBytes [], ArgBytes (ex_Encode_aliases [1]),
      ArgUUID 100, ArgUint64 1, ArgBytes ''root-a1'', ArgBytes [], ArgBytes [],
      ArgInt32 64, ArgBytes [], ArgBytes (ex_Encode_aliases [1])]"

definition row_b_object :: "arg list" where
  "row_b_object =
     [ArgUUID 42, ArgBytes ''bucket'', ArgBytes ''b'', ArgInt (- 1), ArgUUID 100,
      ArgTime 2000, ArgTime 3000, ArgStatus Committed, ArgInt64 1, ArgBytes ''meta-b'']"

definition row_b_segment :: "arg list" where
  "row_b_segment =
     [ArgUUID 100, ArgUint64 0, ArgBytes [], ArgBytes ''key-b'', ArgBytes ''nonce-b'',
      ArgInt32 4, ArgBytes ''data'', ArgBytes (ex_Encode_aliases [1])]"

definition migrated_a :: Migrator where
  "migrated_a = (ex_migrator 500)\<lparr>Objects := row_a_object, Segments := rows_a_segments, UUIDs := 1\<rparr>"

definition migrated_b :: Migrator where
  "migrated_b = (ex_migrator 500)\<lparr>Objects := row_b_object, Segments := row_b_segment, UUIDs := 1\<rparr>"

text \<open>
  The records fetched for the segments of \<open>a\<close> before the last one and the stream metadata
  decoded from them; the migrator after the failed flush of the object row of \<open>a\<close> with a
  batch size of one.
\<close>

definition a_ptr :: "int \<Rightarrow> Pointer" where
  "a_ptr i = (if i = 0 then ptr_a0 else ptr_a1)"

definition a_meta :: "int \<Rightarrow> StreamMeta" where
  "a_meta i = (if i = 0 then meta_own else meta_seg)"

definition failed_a :: Migrator where
  "failed_a =
     (ex_migrator 1)\<lparr>Objects := row_a_object, UUIDs := 1,
        Metabase := [(ObjectsSQL (ex_migrator 1), row_a_object)]\<rparr>"

section \<open>Properties of the segment store\<close>

text \<open>The validator accepts exactly the well-formed lists, and reports the first failure.\<close>

lemma scan_ascending_None: "scan_ascending ps = None \<longleftrightarrow> sorted_wrt (<) (map Number ps)"
proof (induction ps rule: scan_ascending.induct)
  case (1 p q ps)
  then show ?case by (auto simp: not_le)
qed simp_all

lemma scan_nodes_None: "scan_nodes ps = None \<longleftrightarrow> (\<forall>p \<in> set ps. StorageNode p \<noteq> 0)"
  by (induction ps) auto

lemma Verify_None: "Verify ps = None \<longleftrightarrow> well_formed ps"
proof (cases "scan_ascending ps")
  case None
  then show ?thesis
    using scan_ascending_None[of ps] scan_nodes_None[of ps]
    by (simp add: Verify_def well_formed_def)
next
  case (Some msg)
  then show ?thesis
    using scan_ascending_None[of ps] by (simp add: Verify_def well_formed_def)
qed

lemma scan_ascending_dup:
  "sorted_wrt (<) (map Number (pre @ [p])) \<Longrightarrow> Number q = Number p \<Longrightarrow>
   scan_ascending (pre @ p # q # rest) = Some (''duplicated piece number '' @ fmt_d (int (Number q)))"
proof (induction pre)
  case Nil
  then show ?case by simp
next
  case (Cons a pre)
  then show ?case by (cases pre) auto
qed

lemma scan_ascending_unordered:
  "sorted_wrt (<) (map Number (pre @ [p])) \<Longrightarrow> Number q < Number p \<Longrightarrow>
   scan_ascending (pre @ p # q # rest) = Some ''pieces should be ordered''"
proof (induction pre)
  case Nil
  then show ?case by simp
next
  case (Cons a pre)
  then show ?case by (cases pre) auto
qed

lemma scan_nodes_first:
  "\<forall>x \<in> set pre. StorageNode x \<noteq> 0 \<Longrightarrow> StorageNode p = 0 \<Longrightarrow>
   scan_nodes (pre @ p # rest) =
     Some (''piece number '' @ fmt_d (int (Number p)) @ '' is missing storage node id'')"
  by (induction pre) auto

lemma Verify_missing: "Verify [] = Some ''pieces missing''"
  by (simp add: Verify_def)

lemma Verify_dup:
  "sorted_wrt (<) (map Number (pre @ [p])) \<Longrightarrow> Number q = Number p \<Longrightarrow>
   Verify (pre @ p # q # rest) = Some (''duplicated piece number '' @ fmt_d (int (Number q)))"
  by (simp add: Verify_def scan_ascending_dup)

lemma Verify_unordered:
  "sorted_wrt (<) (map Number (pre @ [p])) \<Longrightarrow> Number q < Number p \<Longrightarrow>
   Verify (pre @ p # q # rest) = Some ''pieces should be ordered''"
  by (simp add: Verify_def scan_ascending_unordered)

lemma Verify_node:
  assumes "sorted_wrt (<) (map Number (pre @ p # rest))"
    and "\<forall>x \<in> set pre. StorageNode x \<noteq> 0" and "StorageNode p = 0"
  shows "Verify (pre @ p # rest) =
     Some (''piece number '' @ fmt_d (int (Number p)) @ '' is missing storage node id'')"
proof -
  have "scan_ascending (pre @ p # rest) = None"
    using assms(1) by (simp only: scan_ascending_None)
  then show ?thesis
    using assms(2,3) by (simp add: Verify_def scan_nodes_first)
qed

lemma Verify_Some: "\<not> well_formed ps \<Longrightarrow> \<exists>msg. Verify ps = Some msg"
  using Verify_None[of ps] by (cases "Verify ps") auto

lemma UpdateSegmentPieces_old_invalid:
  "StreamID opts \<noteq> 0 \<Longrightarrow> Verify (OldPieces opts) = Some msg \<Longrightarrow>
   UpdateSegmentPieces db opts = (Some (ErrInvalidRequest (''OldPieces: '' @ msg)), db)"
  by (simp add: UpdateSegmentPieces_def)

lemma UpdateSegmentPieces_new_invalid:
  "StreamID opts \<noteq> 0 \<Longrightarrow> well_formed (OldPieces opts) \<Longrightarrow> Verify (NewPieces opts) = Some msg \<Longrightarrow>
   UpdateSegmentPieces db opts = (Some (ErrInvalidRequest (''NewPieces: '' @ msg)), db)"
  using Verify_None[of "OldPieces opts"] by (simp add: UpdateSegmentPieces_def)

lemma UpdateSegmentPieces_field:
  assumes "StreamID opts \<noteq> 0"
    and "(field = ''OldPieces'' \<and> ps = OldPieces opts) \<or>
         (field = ''NewPieces'' \<and> ps = NewPieces opts \<and> well_formed (OldPieces opts))"
    and "Verify ps = Some msg"
  shows "UpdateSegmentPieces db opts = (Some (ErrInvalidRequest (field @ '': '' @ msg)), db)"
  using assms UpdateSegmentPieces_old_invalid[of opts msg db]
    UpdateSegmentPieces_new_invalid[of opts msg db]
  by auto

lemma UpdateSegmentPieces_malformed_cases:
  assumes "StreamID opts \<noteq> 0"
    and "(field = ''OldPieces'' \<and> ps = OldPieces opts) \<or>
         (field = ''NewPieces'' \<and> ps = NewPieces opts \<and> well_formed (OldPieces opts))"
  shows "(\<not> well_formed ps \<longrightarrow>
            (\<exists>msg. UpdateSegmentPieces db opts =
                     (Some (ErrInvalidRequest (field @ '': '' @ msg)), db)))
       \<and> (ps = [] \<longrightarrow>
            UpdateSegmentPieces db opts =
              (Some (ErrInvalidRequest (field @ '': pieces missing'')), db))
       \<and> (\<forall>pre p q rest.
            ps = pre @ p # q # rest \<and> sorted_wrt (<) (map Number (pre @ [p])) \<and>
            Number q = Number p \<longrightarrow>
            UpdateSegmentPieces db opts =
              (Some (ErrInvalidRequest
                 (field @ '': duplicated piece number '' @ fmt_d (int (Number q)))), db))
       \<and> (\<forall>pre p q rest.
            ps = pre @ p # q # rest \<and> sorted_wrt (<) (map Number (pre @ [p])) \<and>
            Number q < Number p \<longrightarrow>
            UpdateSegmentPieces db opts =
              (Some (ErrInvalidRequest (field @ '': pieces should be ordered'')), db))
       \<and> (\<forall>pre p rest.
            ps = pre @ p # rest \<and> sorted_wrt (<) (map Number ps) \<and>
            (\<forall>x \<in> set pre. StorageNode x \<noteq> 0) \<and> StorageNode p = 0 \<longrightarrow>
            UpdateSegmentPieces db opts =
              (Some (ErrInvalidRequest
                 (field @ '': piece number '' @ fmt_d (int (Number p)) @
                  '' is missing storage node id'')), db))"
proof (intro conjI impI allI)
  assume "\<not> well_formed ps"
  then obtain msg where "Verify ps = Some msg" using Verify_Some by blast
  then show "\<exists>msg. UpdateSegmentPieces db opts =
      (Some (ErrInvalidRequest (field @ '': '' @ msg)), db)"
    using UpdateSegmentPieces_field[OF assms] by blast
next
  assume "ps = []"
  then have "Verify ps = Some ''pieces missing''" by (simp add: Verify_missing)
  from UpdateSegmentPieces_field[OF assms this]
  show "UpdateSegmentPieces db opts =
      (Some (ErrInvalidRequest (field @ '': pieces missing'')), db)" by simp
next
  fix pre p q rest
  assume a: "ps = pre @ p # q # rest \<and> sorted_wrt (<) (map Number (pre @ [p])) \<and>
            Number q = Number p"
  then have "Verify ps = Some (''duplicated piece number '' @ fmt_d (int (Number q)))"
    using Verify_dup[of pre p q rest] by blast
  from UpdateSegmentPieces_field[OF assms this]
  show "UpdateSegmentPieces db opts =
      (Some (ErrInvalidRequest
         (field @ '': duplicated piece number '' @ fmt_d (int (Number q)))), db)" by simp
next
  fix pre p q rest
  assume a: "ps = pre @ p # q # rest \<and> sorted_wrt (<) (map Number (pre @ [p])) \<and>
            Number q < Number p"
  then have "Verify ps = Some ''pieces should be ordered''"
    using Verify_unordered[of pre p q rest] by blast
  from UpdateSegmentPieces_field[OF assms this]
  show "UpdateSegmentPieces db opts =
      (Some (ErrInvalidRequest (field @ '': pieces should be ordered'')), db)" by simp
next
  fix pre p rest
  assume a: "ps = pre @ p # rest \<and> sorted_wrt (<) (map Number ps) \<and>
            (\<forall>x \<in> set pre. StorageNode x \<noteq> 0) \<and> StorageNode p = 0"
  then have "Verify ps =
      Some (''piece number '' @ fmt_d (int (Number p)) @ '' is missing storage node id'')"
    using Verify_node[of pre p rest] by blast
  from UpdateSegmentPieces_field[OF assms this]
  show "UpdateSegmentPieces db opts =
      (Some (ErrInvalidRequest
         (field @ '': piece number '' @ fmt_d (int (Number p)) @
          '' is missing storage node id'')), db)" by simp
qed

text \<open>
  C4 (amended). For every \<^verbatim>\<open>UpdateSegmentPieces\<close> call whose stream identifier is set and in
  which \<open>OldPieces\<close>, or \<open>NewPieces\<close> after a well-formed \<open>OldPieces\<close>, violates one of the
  three piece-list invariants, the call fails with an invalid-request error, whatever the
  stored rows are and without changing them. The message names the field and the rule:
  \<^verbatim>\<open>pieces missing\<close> for the empty list; \<^verbatim>\<open>duplicated piece number N\<close> when the first
  entry that does not ascend repeats its predecessor's number; \<^verbatim>\<open>pieces should be ordered\<close>
  when it is smaller; and, for a strictly ascending list, \<^verbatim>\<open>piece number N is missing
  storage node id\<close> for the first entry whose node identifier is zero. With the stream
  identifier missing, the call fails with \<^verbatim>\<open>StreamID missing\<close> whatever the piece lists
  are, again without touching the stored rows.
\<close>

theorem UpdateSegmentPieces_rejects_malformed_pieces:
  assumes "(field = ''OldPieces'' \<and> ps = OldPieces opts) \<or>
         (field = ''NewPieces'' \<and> ps = NewPieces opts \<and> well_formed (OldPieces opts))"
  shows "(StreamID opts = 0 \<longrightarrow>
            UpdateSegmentPieces db opts = (Some (ErrInvalidRequest ''StreamID missing''), db))
       \<and> (StreamID opts \<noteq> 0 \<longrightarrow>
          (\<not> well_formed ps \<longrightarrow>
               (\<exists>msg. UpdateSegmentPieces db opts =
                        (Some (ErrInvalidRequest (field @ '': '' @ msg)), db)))
          \<and> (ps = [] \<longrightarrow>
               UpdateSegmentPieces db opts =
                 (Some (ErrInvalidRequest (field @ '': pieces missing'')), db))
          \<and> (\<forall>pre p q rest.
               ps = pre @ p # q # rest \<and> sorted_wrt (<) (map Number (pre @ [p])) \<and>
               Number q = Number p \<longrightarrow>
               UpdateSegmentPieces db opts =
                 (Some (ErrInvalidRequest
                    (field @ '': duplicated piece number '' @ fmt_d (int (Number q)))), db))
          \<and> (\<forall>pre p q rest.
               ps = pre @ p # q # rest \<and> sorted_wrt (<) (map Number (pre @ [p])) \<and>
               Number q < Number p \<longrightarrow>
               UpdateSegmentPieces db opts =
                 (Some (ErrInvalidRequest (field @ '': pieces should be ordered'')), db))
          \<and> (\<forall>pre p rest.
               ps = pre @ p # rest \<and> sorted_wrt (<) (map Number ps) \<and>
               (\<forall>x \<in> set pre. StorageNode x \<noteq> 0) \<and> StorageNode p = 0 \<longrightarrow>
               UpdateSegmentPieces db opts =
                 (Some (ErrInvalidRequest
                    (field @ '': piece number '' @ fmt_d (int (Number p)) @
                     '' is missing storage node id'')), db)))"
proof (rule conjI)
  show "StreamID opts = 0 \<longrightarrow>
      UpdateSegmentPieces db opts = (Some (ErrInvalidRequest ''StreamID missing''), db)"
    by (simp add: UpdateSegmentPieces_def)
qed (rule impI, rule UpdateSegmentPieces_malformed_cases[OF _ assms])

text \<open>
  The theorem at the request of the test's scenario "OldPieces: duplicated piece number 1".
\<close>

theorem UpdateSegmentPieces_rejects_malformed_pieces_witness:
  "StreamID opts_duplicated \<noteq> 0 \<and> \<not> well_formed (OldPieces opts_duplicated) \<and>
   UpdateSegmentPieces test_db opts_duplicated =
     (Some (ErrInvalidRequest ''OldPieces: duplicated piece number 1''), test_db)"
proof -
  have h1: "StreamID opts_duplicated \<noteq> 0"
    by (simp add: opts_duplicated_def test_stream_def)
  have h2: "(''OldPieces'' = ''OldPieces'' \<and> OldPieces opts_duplicated = OldPieces opts_duplicated) \<or>
         (''OldPieces'' = ''NewPieces'' \<and> OldPieces opts_duplicated = NewPieces opts_duplicated \<and>
          well_formed (OldPieces opts_duplicated))"
    by simp
  have h3: "\<not> well_formed (OldPieces opts_duplicated)"
    by (simp add: opts_duplicated_def well_formed_def)
  have "UpdateSegmentPieces test_db opts_duplicated =
     (Some (ErrInvalidRequest (''OldPieces'' @ '': duplicated piece number '' @
        fmt_d (int (Number \<lparr>Number = 1, StorageNode = 6\<rparr>)))), test_db)"
    using UpdateSegmentPieces_rejects_malformed_pieces[OF h2, of test_db,
        THEN conjunct2, THEN mp, OF h1,
        THEN conjunct2, THEN conjunct2, THEN conjunct1, rule_format,
        of "[]" "\<lparr>Number = 1, StorageNode = 5\<rparr>" "\<lparr>Number = 1, StorageNode = 6\<rparr>" "[]"]
    by (simp add: opts_duplicated_def)
  then show ?thesis
    using h1 h3 by (simp add: fmt_d_def digits.simps)
qed

text \<open>
  C4 as stated fails when the stream identifier is missing: the request of the test's
  scenario "StreamID missing" has an empty \<open>OldPieces\<close>, and the error names no piece list.
\<close>

theorem UpdateSegmentPieces_stream_checked_first:
  "\<not> well_formed (OldPieces opts_empty) \<and>
   UpdateSegmentPieces test_db opts_empty =
     (Some (ErrInvalidRequest ''StreamID missing''), test_db) \<and>
   fst (UpdateSegmentPieces test_db opts_empty) \<noteq>
     Some (ErrInvalidRequest ''OldPieces: pieces missing'')"
  by (simp add: opts_empty_def well_formed_def UpdateSegmentPieces_def)

text \<open>
  C2 (amended). For every \<^verbatim>\<open>UpdateSegmentPieces\<close> call with the stream identifier set and
  well-formed \<open>OldPieces\<close> and \<open>NewPieces\<close>, where a segment exists at the given stream
  identifier and position but its stored pieces differ from \<open>OldPieces\<close>, the call fails with
  the value-changed error whose text is \<^verbatim>\<open>segment remote_pieces field was changed\<close>, and
  every stored row is left as it was.
\<close>

theorem UpdateSegmentPieces_conflict:
  assumes "StreamID opts \<noteq> 0"
    and "well_formed (OldPieces opts)" and "well_formed (NewPieces opts)"
    and "db_segments db (StreamID opts, Position opts) = Some seg"
    and "SegPieces seg \<noteq> OldPieces opts"
  shows "UpdateSegmentPieces db opts =
           (Some (ErrValueChanged ''segment remote_pieces field was changed''), db)"
  using assms Verify_None[of "OldPieces opts"] Verify_None[of "NewPieces opts"]
  by (simp add: UpdateSegmentPieces_def)

text \<open>The theorem at the request of the test's scenario "segment pieces column was changed".\<close>

theorem UpdateSegmentPieces_conflict_witness:
  "StreamID opts_changed \<noteq> 0 \<and> well_formed (OldPieces opts_changed) \<and>
   well_formed (NewPieces opts_changed) \<and>
   db_segments test_db (StreamID opts_changed, Position opts_changed) = Some test_segment \<and>
   SegPieces test_segment \<noteq> OldPieces opts_changed \<and>
   UpdateSegmentPieces test_db opts_changed =
     (Some (ErrValueChanged ''segment remote_pieces field was changed''), test_db)"
proof -
  have h1: "StreamID opts_changed \<noteq> 0"
    by (simp add: opts_changed_def test_stream_def)
  have h2: "well_formed (OldPieces opts_changed)"
    by (simp add: opts_changed_def well_formed_def)
  have h3: "well_formed (NewPieces opts_changed)"
    by (simp add: opts_changed_def well_formed_def)
  have h4: "db_segments test_db (StreamID opts_changed, Position opts_changed) = Some test_segment"
    by (simp add: opts_changed_def test_db_def)
  have h5: "SegPieces test_segment \<noteq> OldPieces opts_changed"
    by (simp add: opts_changed_def test_segment_def)
  from UpdateSegmentPieces_conflict[OF h1 h2 h3 h4 h5] h1 h2 h3 h4 h5
  show ?thesis by simp
qed

text \<open>
  C2 as stated fails on the error text, which is the one the test expects and not
  \<^verbatim>\<open>segment pieces field was changed\<close>; and with the stream identifier missing the call
  is an invalid request even when a segment is stored under that identifier.
\<close>

theorem UpdateSegmentPieces_conflict_text:
  "well_formed (OldPieces opts_changed) \<and> well_formed (NewPieces opts_changed) \<and>
   db_segments test_db (StreamID opts_changed, Position opts_changed) = Some test_segment \<and>
   SegPieces test_segment \<noteq> OldPieces opts_changed \<and>
   UpdateSegmentPieces test_db opts_changed =
     (Some (ErrValueChanged ''segment remote_pieces field was changed''), test_db) \<and>
   fst (UpdateSegmentPieces test_db opts_changed) \<noteq>
     Some (ErrValueChanged ''segment pieces field was changed'') \<and>
   db_segments test_db_zero_stream
     (StreamID opts_changed_zero_stream, Position opts_changed_zero_stream) = Some test_segment \<and>
   UpdateSegmentPieces test_db_zero_stream opts_changed_zero_stream =
     (Some (ErrInvalidRequest ''StreamID missing''), test_db_zero_stream)"
  by (simp add: opts_changed_def opts_changed_zero_stream_def well_formed_def test_db_def
      test_db_zero_stream_def test_segment_def test_stream_def test_position_def
      UpdateSegmentPieces_def Verify_def)

text \<open>
  C3. After every successful \<^verbatim>\<open>UpdateSegmentPieces\<close> call the target segment is the segment
  stored before with its pieces replaced by exactly \<open>NewPieces\<close>: every other field of that
  segment, every other segment and every object row are unchanged.
\<close>

theorem UpdateSegmentPieces_success_frame:
  assumes "UpdateSegmentPieces db opts = (None, db')"
  shows "\<exists>seg. db_segments db (StreamID opts, Position opts) = Some seg
           \<and> db_segments db' (StreamID opts, Position opts) =
               Some (seg\<lparr>SegPieces := NewPieces opts\<rparr>)
           \<and> (\<forall>k. k \<noteq> (StreamID opts, Position opts) \<longrightarrow> db_segments db' k = db_segments db k)
           \<and> db_objects db' = db_objects db"
  using assms
  by (auto simp: UpdateSegmentPieces_def split: if_splits option.splits)

text \<open>The theorem at the request of the test's scenario "update pieces".\<close>

theorem UpdateSegmentPieces_success_frame_witness:
  "UpdateSegmentPieces test_db opts_update = (None, test_db_updated) \<and>
   (\<exists>seg. db_segments test_db (StreamID opts_update, Position opts_update) = Some seg
      \<and> db_segments test_db_updated (StreamID opts_update, Position opts_update) =
          Some (seg\<lparr>SegPieces := NewPieces opts_update\<rparr>)
      \<and> (\<forall>k. k \<noteq> (StreamID opts_update, Position opts_update) \<longrightarrow>
            db_segments test_db_updated k = db_segments test_db k)
      \<and> db_objects test_db_updated = db_objects test_db)"
proof -
  have h: "UpdateSegmentPieces test_db opts_update = (None, test_db_updated)"
    by (simp add: UpdateSegmentPieces_def opts_update_def test_db_def test_db_updated_def
        test_segment_def test_stream_def Verify_def)
  from UpdateSegmentPieces_success_frame[OF h] h show ?thesis by blast
qed

section \<open>Properties of the insert statements\<close>

text \<open>Within the range of \<^verbatim>\<open>int\<close> nothing wraps, and each pass of a loop adds one tuple.\<close>

lemma wrap_int_id: "- (2 ^ 63) \<le> x \<Longrightarrow> x < 2 ^ 63 \<Longrightarrow> wrap_int x = x"
  unfolding wrap_int_def by (simp add: mod_pos_pos_trivial)

lemma join_trailing: "xs \<noteq> [] \<Longrightarrow> concat (map (\<lambda>x. x @ sep) xs) = join sep xs @ sep"
  by (induction sep xs rule: join.induct) auto

lemma TrimSuffix_append: "TrimSuffix (s @ t) t = s"
  by (simp add: TrimSuffix_def HasSuffix_def)

lemma upt_10: "[0..<10] = [0, 1, 2, 3, 4, 5, 6, 7, 8, 9]"
  by (simp add: upt_rec)

lemma upt_8: "[0..<8] = [0, 1, 2, 3, 4, 5, 6, 7]"
  by (simp add: upt_rec)

lemma Sprintf_objects_tuple:
  assumes "int r * 10 + 10 < 2 ^ 63"
  shows "Sprintf_objects (1 + 10 * int r) = value_tuple 10 r @ '',''"
  using assms
  by (simp add: Sprintf_objects_def value_tuple_def upt_10 placeholder_def wrap_int_id
      add.commute add.left_commute mult.commute)

lemma Sprintf_segments_tuple:
  assumes "int r * 8 + 8 < 2 ^ 63"
  shows "Sprintf_segments (1 + 8 * int r) = value_tuple 8 r @ '',''"
  using assms
  by (simp add: Sprintf_segments_def value_tuple_def upt_8 placeholder_def wrap_int_id
      add.commute add.left_commute mult.commute)

lemma objects_loop_run:
  assumes "int n * 10 < 2 ^ 63"
  shows "k \<le> n \<Longrightarrow> preparObjectsSQL_loop (int n) (1 + 10 * int k) sql =
     Some (sql @ concat (map (\<lambda>r. value_tuple 10 r @ '','') [k..<n]))"
proof (induction "n - k" arbitrary: k sql)
  case 0
  then have "k = n" by simp
  then show ?case
    using assms by (subst preparObjectsSQL_loop.simps) (simp add: objectsArgs_def wrap_int_id)
next
  case (Suc d)
  then have lt: "k < n" and d: "d = n - Suc k" by simp_all
  have c: "1 + 10 * int k < wrap_int (int n * objectsArgs)"
    using assms lt by (simp add: wrap_int_id objectsArgs_def)
  have w2: "wrap_int (1 + 10 * int k + objectsArgs) = 1 + 10 * int (Suc k)"
    using assms lt by (simp add: wrap_int_id objectsArgs_def)
  have t: "Sprintf_objects (1 + 10 * int k) = value_tuple 10 k @ '',''"
    using assms lt by (intro Sprintf_objects_tuple) simp
  have "preparObjectsSQL_loop (int n) (1 + 10 * int k) sql =
        preparObjectsSQL_loop (int n) (wrap_int (1 + 10 * int k + objectsArgs))
          (sql @ Sprintf_objects (1 + 10 * int k))"
    using c by (subst preparObjectsSQL_loop.simps) (simp only: if_True)
  also have "\<dots> =
        preparObjectsSQL_loop (int n) (1 + 10 * int (Suc k)) (sql @ value_tuple 10 k @ '','')"
    by (simp only: w2 t)
  also have "\<dots> = Some ((sql @ value_tuple 10 k @ '','') @
        concat (map (\<lambda>r. value_tuple 10 r @ '','') [Suc k..<n]))"
    using Suc.hyps(1)[OF d] lt by simp
  finally show ?case
    using lt by (simp add: upt_conv_Cons)
qed

lemma segments_loop_run:
  assumes "int n * 8 < 2 ^ 63"
  shows "k \<le> n \<Longrightarrow> preparSegmentsSQL_loop (int n) (1 + 8 * int k) sql =
     Some (sql @ concat (map (\<lambda>r. value_tuple 8 r @ '','') [k..<n]))"
proof (induction "n - k" arbitrary: k sql)
  case 0
  then have "k = n" by simp
  then show ?case
    using assms by (subst preparSegmentsSQL_loop.simps) (simp add: segmentsArgs_def wrap_int_id)
next
  case (Suc d)
  then have lt: "k < n" and d: "d = n - Suc k" by simp_all
  have c: "1 + 8 * int k < wrap_int (int n * segmentsArgs)"
    using assms lt by (simp add: wrap_int_id segmentsArgs_def)
  have w2: "wrap_int (1 + 8 * int k + segmentsArgs) = 1 + 8 * int (Suc k)"
    using assms lt by (simp add: wrap_int_id segmentsArgs_def)
  have t: "Sprintf_segments (1 + 8 * int k) = value_tuple 8 k @ '',''"
    using assms lt by (intro Sprintf_segments_tuple) simp
  have "preparSegmentsSQL_loop (int n) (1 + 8 * int k) sql =
        preparSegmentsSQL_loop (int n) (wrap_int (1 + 8 * int k + segmentsArgs))
          (sql @ Sprintf_segments (1 + 8 * int k))"
    using c by (subst preparSegmentsSQL_loop.simps) (simp only: if_True)
  also have "\<dots> =
        preparSegmentsSQL_loop (int n) (1 + 8 * int (Suc k)) (sql @ value_tuple 8 k @ '','')"
    by (simp only: w2 t)
  also have "\<dots> = Some ((sql @ value_tuple 8 k @ '','') @
        concat (map (\<lambda>r. value_tuple 8 r @ '','') [Suc k..<n]))"
    using Suc.hyps(1)[OF d] lt by simp
  finally show ?case
    using lt by (simp add: upt_conv_Cons)
qed

lemma preparObjectsSQL_rows:
  assumes "int n * 10 < 2 ^ 63"
  shows "preparObjectsSQL (int n) =
     Some (TrimSuffix (objects_sql_head @ concat (map (\<lambda>r. value_tuple 10 r @ '','') [0..<n])) '','')"
  using objects_loop_run[OF assms, of 0 objects_sql_head]
  by (simp add: preparObjectsSQL_def)

lemma preparSegmentsSQL_rows:
  assumes "int n * 8 < 2 ^ 63"
  shows "preparSegmentsSQL (int n) =
     Some (TrimSuffix (segments_sql_head @ concat (map (\<lambda>r. value_tuple 8 r @ '','') [0..<n])) '','')"
  using segments_loop_run[OF assms, of 0 segments_sql_head]
  by (simp add: preparSegmentsSQL_def)

lemma trim_rows:
  assumes "1 \<le> n"
  shows "TrimSuffix (h @ concat (map (\<lambda>r. value_tuple k r @ '','') [0..<n])) '','' =
         h @ values_clause k n"
proof -
  have ne: "map (value_tuple k) [0..<n] \<noteq> []" using assms by simp
  have "concat (map (\<lambda>r. value_tuple k r @ '','') [0..<n]) =
        concat (map (\<lambda>x. x @ '','') (map (value_tuple k) [0..<n]))"
    by (simp add: comp_def)
  also have "\<dots> = values_clause k n @ '',''"
    using join_trailing[OF ne, of "'',''"] by (simp add: values_clause_def)
  finally show ?thesis
    using TrimSuffix_append[of "h @ values_clause k n" "'',''"] by simp
qed

lemma join_last: "xs \<noteq> [] \<Longrightarrow> last xs \<noteq> [] \<Longrightarrow> join sep xs \<noteq> [] \<and> last (join sep xs) = last (last xs)"
  by (induction sep xs rule: join.induct) auto

lemma values_clause_last:
  assumes "1 \<le> n"
  shows "values_clause k n \<noteq> [] \<and> last (values_clause k n) = CHR '')''"
proof -
  have ne: "map (value_tuple k) [0..<n] \<noteq> []" using assms by simp
  have l: "last (map (value_tuple k) [0..<n]) = value_tuple k (n - 1)"
    using assms by (simp add: last_map)
  have v: "value_tuple k (n - 1) \<noteq> [] \<and> last (value_tuple k (n - 1)) = CHR '')''"
    by (simp add: value_tuple_def)
  show ?thesis
    using join_last[OF ne, of "'',''"] l v by (simp add: values_clause_def)
qed

lemma HasSuffix_single:
  assumes "HasSuffix s [c]"
  shows "last s = c"
proof -
  from assms have len: "1 \<le> length s" and d: "drop (length s - 1) s = [c]"
    by (simp_all add: HasSuffix_def)
  have "last (drop (length s - 1) s) = last s"
    using len by (intro last_drop) simp
  with d show ?thesis by simp
qed

lemma no_trailing_comma:
  assumes "1 \<le> n"
  shows "\<not> HasSuffix (h @ values_clause k n) '',''"
proof
  assume "HasSuffix (h @ values_clause k n) '',''"
  then have "last (h @ values_clause k n) = CHR '',''"
    by (rule HasSuffix_single)
  then show False
    using values_clause_last[OF assms, of k] by simp
qed

text \<open>
  C8 (amended). For every row count \<open>n \<ge> 1\<close> for which the product of \<open>n\<close> and the column
  count (10 for objects, 8 for segments) does not overflow Go's 64-bit \<^verbatim>\<open>int\<close>, the generated
  statement is its head followed by exactly \<open>n\<close> parenthesized tuples of 10 (respectively 8)
  placeholders, numbered consecutively from \<^verbatim>\<open>$1\<close> to \<^verbatim>\<open>$(n*10)\<close> (respectively \<^verbatim>\<open>$(n*8)\<close>),
  separated by commas, with no trailing comma and nothing beyond the requested rows.
\<close>

theorem insert_statement_shape:
  assumes "1 \<le> n"
  shows "(int n * 10 < 2 ^ 63 \<longrightarrow>
            preparObjectsSQL (int n) = Some (objects_sql_head @ values_clause 10 n) \<and>
            \<not> HasSuffix (objects_sql_head @ values_clause 10 n) '','')
       \<and> (int n * 8 < 2 ^ 63 \<longrightarrow>
            preparSegmentsSQL (int n) = Some (segments_sql_head @ values_clause 8 n) \<and>
            \<not> HasSuffix (segments_sql_head @ values_clause 8 n) '','')"
  using assms
  by (simp add: preparObjectsSQL_rows preparSegmentsSQL_rows trim_rows no_trailing_comma)

text \<open>The theorem for two rows, with both statements written out.\<close>

theorem insert_statement_shape_witness:
  "(1::nat) \<le> 2 \<and> int 2 * 10 < 2 ^ 63 \<and> int 2 * 8 < 2 ^ 63 \<and>
   preparObjectsSQL 2 = Some (objects_sql_head @
     ''($1, $2, $3, $4, $5, $6, $7, $8, $9, $10),($11, $12, $13, $14, $15, $16, $17, $18, $19, $20)'') \<and>
   preparSegmentsSQL 2 = Some (segments_sql_head @
     ''($1, $2, $3, $4, $5, $6, $7, $8),($9, $10, $11, $12, $13, $14, $15, $16)'')"
proof -
  have v10: "values_clause 10 2 =
    ''($1, $2, $3, $4, $5, $6, $7, $8, $9, $10),($11, $12, $13, $14, $15, $16, $17, $18, $19, $20)''"
    by code_simp
  have v8: "values_clause 8 2 =
    ''($1, $2, $3, $4, $5, $6, $7, $8),($9, $10, $11, $12, $13, $14, $15, $16)''"
    by code_simp
  have h: "(1::nat) \<le> 2" by simp
  from insert_statement_shape[OF h] show ?thesis
    by (simp add: v10 v8)
qed

text \<open>
  C8 as stated fails for row counts whose product with the column count overflows: for
  \<open>n = 2\<^sup>6\<^sup>2\<close> the product \<^verbatim>\<open>batchSize*objectsArgs\<close> wraps to \<open>- 2\<^sup>6\<^sup>3\<close>, the loop body never
  runs, and the statement has no tuple at all.
\<close>

theorem insert_statement_overflow:
  "(1::nat) \<le> 2 ^ 62 \<and>
   preparObjectsSQL (int (2 ^ 62)) = Some objects_sql_head \<and>
   preparObjectsSQL (int (2 ^ 62)) \<noteq> Some (objects_sql_head @ values_clause 10 (2 ^ 62))"
proof -
  have l: "preparObjectsSQL_loop (int (2 ^ 62)) 1 objects_sql_head = Some objects_sql_head"
    by (subst preparObjectsSQL_loop.simps) (simp add: wrap_int_def objectsArgs_def)
  have t: "TrimSuffix objects_sql_head '','' = objects_sql_head"
    by (simp add: TrimSuffix_def HasSuffix_def objects_sql_head_def)
  have r: "preparObjectsSQL (int (2 ^ 62)) = Some objects_sql_head"
    by (simp only: preparObjectsSQL_def l t option.case)
  have "values_clause 10 (2 ^ 62) \<noteq> []"
    using values_clause_last[of "2 ^ 62" 10] by simp
  with r show ?thesis by simp
qed

section \<open>Properties of the migrator\<close>

text \<open>
  \<^verbatim>\<open>insertSegment\<close> and \<^verbatim>\<open>insertObject\<close> in terms of rows handed to the buffers, the runs of
  the listing loop, the statements of the last flushes, and the evaluation of the example
  store.
\<close>

subsection \<open>Rows handed to the buffers\<close>

lemma ucast_of_int_64_32: "(ucast (word_of_int i :: 64 word) :: 32 word) = word_of_int i"
  by (rule bit_word_eqI) (auto simp: bit_simps)

lemma minus_one_of_sint: "(n - 1 :: 64 word) = word_of_int (sint n - 1)"
  by simp

lemma insertSegment_push:
  "insertSegment e m streamID segmentIndex pointer streamMeta =
     (case (case streamMeta of
              None \<Rightarrow> Unmarshal_StreamMeta e (Metadata pointer)
            | Some sm \<Rightarrow> Inr sm) of
        Inl err \<Rightarrow> (Some err, m)
      | Inr sm \<Rightarrow> push_segment e m (segment_row e streamID (ucast segmentIndex) pointer sm))"
  by (simp add: insertSegment_def push_segment_def segment_row_def last_segment_key_def
      last_segment_nonce_def Let_def split: sum.splits option.splits)

lemma Exec_frame:
  "Exec e m sql args = (r, m') \<Longrightarrow>
   ProjectID m' = ProjectID m \<and> BucketName m' = BucketName m \<and> BatchSize m' = BatchSize m \<and>
   UUIDs m' = UUIDs m \<and> Objects m' = Objects m \<and> Segments m' = Segments m"
  by (auto simp: Exec_def)

lemma sendSegments_frame:
  "sendSegments e m = (r, m') \<Longrightarrow>
   ProjectID m' = ProjectID m \<and> BucketName m' = BucketName m \<and> BatchSize m' = BatchSize m \<and>
   UUIDs m' = UUIDs m \<and> Objects m' = Objects m"
  by (auto simp: sendSegments_def Exec_def split: if_splits option.splits)

lemma sendObjects_frame:
  "sendObjects e m = (r, m') \<Longrightarrow>
   ProjectID m' = ProjectID m \<and> BucketName m' = BucketName m \<and> BatchSize m' = BatchSize m \<and>
   UUIDs m' = UUIDs m \<and> Segments m' = Segments m"
  by (auto simp: sendObjects_def Exec_def split: if_splits option.splits)

lemma push_segment_frame:
  "push_segment e m row = (r, m') \<Longrightarrow>
   ProjectID m' = ProjectID m \<and> BucketName m' = BucketName m \<and> BatchSize m' = BatchSize m \<and>
   UUIDs m' = UUIDs m \<and> Objects m' = Objects m"
  by (auto simp: push_segment_def Let_def split: if_splits dest!: sendSegments_frame)

lemma push_object_frame:
  "push_object e m row = (r, m') \<Longrightarrow>
   ProjectID m' = ProjectID m \<and> BucketName m' = BucketName m \<and> BatchSize m' = BatchSize m \<and>
   UUIDs m' = UUIDs m \<and> Segments m' = Segments m"
  by (auto simp: push_object_def Let_def split: if_splits dest!: sendObjects_frame)

lemma insertObject_loop_push:
  assumes fetch: "\<And>i. lo \<le> i \<Longrightarrow> i < bound \<Longrightarrow>
            CreatePath e pid (word_of_int i) bucket encryptedPath = Inr (path i) \<and>
            PointerDB_Get e (path i) = Inr (val i) \<and>
            Unmarshal_Pointer e (val i) = Inr (ptr i) \<and>
            Unmarshal_StreamMeta e (Metadata (ptr i)) = Inr (meta i)"
    and "ProjectID m = pid" and "BucketName m = bucket"
  shows "insertObject_loop e streamID encryptedPath lo bound m =
           push_segments e m
             (map (\<lambda>i. segment_row e streamID (word_of_int i) (ptr i) (meta i)) [lo..bound - 1])"
  using assms
proof (induction "nat (bound - lo)" arbitrary: lo m)
  case 0
  then have "\<not> lo < bound" by simp
  then show ?case
    by (subst insertObject_loop.simps) simp
next
  case (Suc d)
  then have lt: "lo < bound" and d: "d = nat (bound - (lo + 1))" by linarith+
  have up: "[lo..bound - 1] = lo # [lo + 1..bound - 1]"
    using lt by (simp add: upto_rec1)
  note f = Suc.prems(1)[OF order_refl lt]
  have seg: "insertSegment e m streamID (word_of_int lo) (ptr lo) None =
         push_segment e m (segment_row e streamID (word_of_int lo) (ptr lo) (meta lo))"
    using f by (simp add: insertSegment_push ucast_of_int_64_32)
  show ?case
  proof (cases "push_segment e m (segment_row e streamID (word_of_int lo) (ptr lo) (meta lo))")
    case (Pair r m')
    show ?thesis
    proof (cases r)
      case None
      have fr: "ProjectID m' = pid" "BucketName m' = bucket"
        using push_segment_frame[OF Pair] Suc.prems(2,3) by simp_all
      have IH: "insertObject_loop e streamID encryptedPath (lo + 1) bound m' =
           push_segments e m'
             (map (\<lambda>i. segment_row e streamID (word_of_int i) (ptr i) (meta i)) [lo + 1..bound - 1])"
        using Suc.prems(1) by (intro Suc.hyps(1)[OF d _ fr]) simp
      show ?thesis
        using lt f Suc.prems(2,3) seg Pair None IH
        by (subst insertObject_loop.simps) (simp add: up)
    next
      case (Some err)
      show ?thesis
        using lt f Suc.prems(2,3) seg Pair Some
        by (subst insertObject_loop.simps) (simp add: up)
    qed
  qed
qed

lemma insertObject_push_rows:
  assumes "Unmarshal_StreamMeta e (Metadata pointer) = Inr sm"
    and "1 \<le> sint (NumberOfSegments sm)"
    and "NewUUID_nth e (UUIDs m) = Inr streamID"
    and fetch: "\<And>i. 0 \<le> i \<Longrightarrow> i < sint (NumberOfSegments sm) - 1 \<Longrightarrow>
            CreatePath e (ProjectID m) (word_of_int i) (BucketName m) encryptedPath = Inr (path i) \<and>
            PointerDB_Get e (path i) = Inr (val i) \<and>
            Unmarshal_Pointer e (val i) = Inr (ptr i) \<and>
            Unmarshal_StreamMeta e (Metadata (ptr i)) = Inr (meta i)"
  shows "insertObject e m encryptedPath pointer =
           (case push_object e (m\<lparr>UUIDs := Suc (UUIDs m)\<rparr>)
                   (object_row m encryptedPath pointer streamID (NumberOfSegments sm)) of
              (Some err, m1) \<Rightarrow> (Some err, m1)
            | (None, m1) \<Rightarrow>
                push_segments e m1
                  (segment_row e streamID (word_of_int (sint (NumberOfSegments sm) - 1)) pointer sm #
                   map (\<lambda>i. segment_row e streamID (word_of_int i) (ptr i) (meta i))
                     [0..sint (NumberOfSegments sm) - 2]))"
proof -
  let ?N = "NumberOfSegments sm"
  let ?m0 = "m\<lparr>UUIDs := Suc (UUIDs m)\<rparr>"
  let ?orow = "object_row m encryptedPath pointer streamID ?N"
  have nz: "?N \<noteq> 0" using assms(2) by auto
  have last_idx: "(ucast (?N - 1) :: 32 word) = word_of_int (sint ?N - 1)"
    by (subst minus_one_of_sint) (rule ucast_of_int_64_32)
  have bound: "sint (?N - 1) = sint ?N - 1"
  proof -
    have "sint ?N < 2 ^ 63" using sint_lt[of ?N] by simp
    then have "- (2 ^ 63) \<le> sint ?N - 1" "sint ?N - 1 < 2 ^ 63" using assms(2) by simp_all
    then show ?thesis
      by (simp add: sint_word_ariths signed_take_bit_int_eq_self)
  qed
  have obj: "insertObject e m encryptedPath pointer =
     (case push_object e ?m0 ?orow of
        (Some err, m2) \<Rightarrow> (Some err, m2)
      | (None, m2) \<Rightarrow>
          (case insertSegment e m2 streamID (?N - 1) pointer (Some sm) of
             (Some err, m3) \<Rightarrow> (Some err, m3)
           | (None, m3) \<Rightarrow>
               insertObject_loop e streamID encryptedPath 0 (sint (?N - 1)) m3))"
    using assms(1,3) nz
    by (simp add: insertObject_def push_object_def object_row_def Let_def)
  show ?thesis
  proof (cases "push_object e ?m0 ?orow")
    case (Pair r m2)
    show ?thesis
    proof (cases r)
      case (Some err)
      with Pair obj show ?thesis by simp
    next
      case None
      have fr2: "ProjectID m2 = ProjectID m" "BucketName m2 = BucketName m"
        using push_object_frame[OF Pair] by simp_all
      let ?lrow = "segment_row e streamID (word_of_int (sint ?N - 1)) pointer sm"
      have seg: "insertSegment e m2 streamID (?N - 1) pointer (Some sm) = push_segment e m2 ?lrow"
        by (simp add: insertSegment_push last_idx)
      show ?thesis
      proof (cases "push_segment e m2 ?lrow")
        case P3: (Pair r3 m3)
        show ?thesis
        proof (cases r3)
          case (Some err)
          with Pair None obj seg P3 show ?thesis by simp
        next
          case N3: None
          have fr3: "ProjectID m3 = ProjectID m" "BucketName m3 = BucketName m"
            using push_segment_frame[OF P3] fr2 by simp_all
          have loop: "insertObject_loop e streamID encryptedPath 0 (sint ?N - 1) m3 =
             push_segments e m3
               (map (\<lambda>i. segment_row e streamID (word_of_int i) (ptr i) (meta i))
                  [0..sint ?N - 1 - 1])"
            using fetch by (intro insertObject_loop_push[where path = path and val = val, OF _ fr3]) simp
          have "sint ?N - 1 - 1 = sint ?N - 2" by simp
          with Pair None obj seg P3 N3 loop bound show ?thesis by simp
        qed
      qed
    qed
  qed
qed

lemma insertObject_push:
  assumes "Unmarshal_StreamMeta e (Metadata pointer) = Inr sm"
    and "1 \<le> sint (NumberOfSegments sm)"
    and "NewUUID_nth e (UUIDs m) = Inr streamID"
    and "\<forall>i. 0 \<le> i \<and> i < sint (NumberOfSegments sm) - 1 \<longrightarrow>
            CreatePath e (ProjectID m) (word_of_int i) (BucketName m) encryptedPath = Inr (path i) \<and>
            PointerDB_Get e (path i) = Inr (val i) \<and>
            Unmarshal_Pointer e (val i) = Inr (ptr i) \<and>
            Unmarshal_StreamMeta e (Metadata (ptr i)) = Inr (meta i)"
  shows "insertObject e m encryptedPath pointer =
           (case push_object e (m\<lparr>UUIDs := Suc (UUIDs m)\<rparr>)
                   (object_row m encryptedPath pointer streamID (NumberOfSegments sm)) of
              (Some err, m1) \<Rightarrow> (Some err, m1)
            | (None, m1) \<Rightarrow>
                push_segments e m1 (object_segment_rows e streamID pointer sm ptr meta))"
  unfolding object_segment_rows_def
  using assms(4) by (intro insertObject_push_rows[OF assms(1,2,3), where path = path and val = val]) blast

subsection \<open>The callback and the listing loop\<close>

lemma insertObject_zero:
  "Unmarshal_StreamMeta e (Metadata pointer) = Inr sm \<Longrightarrow> NumberOfSegments sm = 0 \<Longrightarrow>
   insertObject e m encryptedPath pointer = (Some (Error ''unsupported case''), m)"
  by (simp add: insertObject_def)

lemma iterate_items_append:
  "iterate_items e (pre @ items) st =
     (case iterate_items e pre st of
        (Done, st') \<Rightarrow> iterate_items e items st'
      | (out, st') \<Rightarrow> (out, st'))"
proof (induction pre arbitrary: st)
  case Nil
  then show ?case by simp
next
  case (Cons a pre)
  obtain out st' where "migrate_item e st a = (out, st')"
    by (cases "migrate_item e st a") auto
  then show ?case using Cons by (cases out) simp_all
qed

lemma iterate_items_stops:
  assumes "iterate_items e pre st = (Done, st1)"
    and "migrate_item e st1 item = (out, st2)" and "out \<noteq> Done"
  shows "iterate_items e (pre @ item # post) st = (out, st2)"
  using assms by (cases out) (simp_all add: iterate_items_append)

lemma MigrateBucket_loop_failed:
  assumes "ListV2Iterate e path lastKey m = (more1, out, m', lastKey')" and "out \<noteq> Done"
  shows "MigrateBucket_loop e path True lastKey m = Some (out, m')"
  using assms by (subst MigrateBucket_loop.simps) (cases out; simp)

lemma MigrateBucket_loop_next:
  assumes "ListV2Iterate e path lastKey m = (more1, Done, m', lastKey')"
  shows "MigrateBucket_loop e path True lastKey m = MigrateBucket_loop e path more1 lastKey' m'"
  using assms by (subst MigrateBucket_loop.simps) simp

lemma MigrateBucket_loop_end: "MigrateBucket_loop e path False lastKey m = Some (Done, m)"
  by (subst MigrateBucket_loop.simps) simp

lemma after_pages_loop:
  "after_pages e path k (lastKey, m) = Some (lastKey', m') \<Longrightarrow>
   MigrateBucket_loop e path True lastKey m = MigrateBucket_loop e path True lastKey' m'"
proof (induction k arbitrary: lastKey m)
  case 0
  then show ?case by simp
next
  case (Suc k)
  obtain more1 out m1 lk1 where it: "ListV2Iterate e path lastKey m = (more1, out, m1, lk1)"
    by (metis prod_cases4)
  with Suc.prems have "more1" "out = Done" and rest: "after_pages e path k (lk1, m1) = Some (lastKey', m')"
    by (auto split: if_splits outcome.splits bool.splits)
  then show ?case
    using MigrateBucket_loop_next[of e path lastKey m more1 m1 lk1] it Suc.IH[OF rest] by simp
qed

lemma ListV2Iterate_stops:
  assumes "Items (PointerDB_List e path lastKey) = pre @ item # post"
    and "iterate_items e pre (m, lastKey) = (Done, st1)"
    and "migrate_item e st1 item = (out, m2, lk2)" and "out \<noteq> Done"
  shows "ListV2Iterate e path lastKey m = (False, out, m2, lk2)"
  using iterate_items_stops[OF assms(2,3,4), of post] assms(1,4)
  by (cases out) (simp_all add: ListV2Iterate_def)

lemma migrate_item_zero:
  assumes "Unmarshal_Pointer e (Value item) = Inr pointer" and "Key item \<noteq> []"
    and "Unmarshal_StreamMeta e (Metadata pointer) = Inr sm" and "NumberOfSegments sm = 0"
  shows "migrate_item e (m, lastKey) item = (Failed (Error ''unsupported case''), m, lastKey)"
  using assms
  by (cases "Key item") (simp_all add: migrate_item_def insertObject_zero Let_def)

subsection \<open>The last flushes\<close>

lemma preparObjectsSQL_sized:
  assumes "int n * 10 < 2 ^ 63"
  shows "preparObjectsSQL (int n) = Some (objects_sql_head @ values_clause 10 n)"
proof (cases "n = 0")
  case True
  have "TrimSuffix objects_sql_head '','' = objects_sql_head"
    by (simp add: TrimSuffix_def HasSuffix_def objects_sql_head_def)
  then show ?thesis
    using preparObjectsSQL_rows[OF assms] True by (simp add: values_clause_def)
next
  case False
  then show ?thesis
    using preparObjectsSQL_rows[OF assms] trim_rows[of n objects_sql_head 10] by simp
qed

lemma preparSegmentsSQL_sized:
  assumes "int n * 8 < 2 ^ 63"
  shows "preparSegmentsSQL (int n) = Some (segments_sql_head @ values_clause 8 n)"
proof (cases "n = 0")
  case True
  have "TrimSuffix segments_sql_head '','' = segments_sql_head"
    by (simp add: TrimSuffix_def HasSuffix_def segments_sql_head_def)
  then show ?thesis
    using preparSegmentsSQL_rows[OF assms] True by (simp add: values_clause_def)
next
  case False
  then show ?thesis
    using preparSegmentsSQL_rows[OF assms] trim_rows[of n segments_sql_head 8] by simp
qed

lemma preparObjectsSQL_buffer:
  assumes "length xs < 2 ^ 63"
  shows "preparObjectsSQL (int (length xs) div objectsArgs) =
           Some (objects_sql_head @ values_clause 10 (length xs div 10))"
proof -
  have "int (length xs div 10) * 10 \<le> int (length xs)" by simp
  moreover have "int (length xs) < 2 ^ 63" using assms by (simp add: of_nat_less_iff[of _ "2 ^ 63", simplified] flip: of_nat_power)
  ultimately have "int (length xs div 10) * 10 < 2 ^ 63" by linarith
  from preparObjectsSQL_sized[OF this] show ?thesis
    by (simp add: objectsArgs_def zdiv_int)
qed

lemma preparSegmentsSQL_buffer:
  assumes "length xs < 2 ^ 63"
  shows "preparSegmentsSQL (int (length xs) div segmentsArgs) =
           Some (segments_sql_head @ values_clause 8 (length xs div 8))"
proof -
  have "int (length xs div 8) * 8 \<le> int (length xs)" by simp
  moreover have "int (length xs) < 2 ^ 63" using assms by (simp add: of_nat_less_iff[of _ "2 ^ 63", simplified] flip: of_nat_power)
  ultimately have "int (length xs div 8) * 8 < 2 ^ 63" by linarith
  from preparSegmentsSQL_sized[OF this] show ?thesis
    by (simp add: segmentsArgs_def zdiv_int)
qed

lemma flush_remaining_sized:
  assumes "length (Objects m) < 2 ^ 63" and "length (Segments m) < 2 ^ 63"
  shows "flush_remaining e m =
    (let osql = objects_sql_head @ values_clause 10 (length (Objects m) div 10);
         ssql = segments_sql_head @ values_clause 8 (length (Segments m) div 8);
         ocalls = (if Objects m = [] then [] else [(osql, Objects m)]);
         ofail = (if Objects m = [] then None
                  else Metabase_Exec e (Metabase m) osql (Objects m));
         sskip = (Segments m = [] \<or> ofail \<noteq> None);
         scalls = (if sskip then [] else [(ssql, Segments m)]);
         sfail = (if sskip then None
                  else Metabase_Exec e (Metabase m @ ocalls) ssql (Segments m))
     in Some (case ofail of
                Some err \<Rightarrow> Failed err
              | None \<Rightarrow> (case sfail of Some err \<Rightarrow> Failed err | None \<Rightarrow> Done),
              m\<lparr>Metabase := Metabase m @ ocalls @ scalls\<rparr>))"
  using preparObjectsSQL_buffer[OF assms(1)] preparSegmentsSQL_buffer[OF assms(2)]
  by (auto simp: flush_remaining_def Exec_def Let_def split: option.splits)

lemma MigrateBucket_flush:
  assumes "CreatePath e (ProjectID m) (- 1) (BucketName m) [] = Inr path"
    and "MigrateBucket_loop e path True [] m = Some (Done, m1)"
  shows "MigrateBucket e m = flush_remaining e m1"
  using assms by (simp add: MigrateBucket_def)

subsection \<open>A target database that accepts every statement\<close>

lemma sendObjects_ok:
  "\<forall>log sql args. Metabase_Exec e log sql args = None \<Longrightarrow> fst (sendObjects e m) = None"
  by (simp add: sendObjects_def Exec_def)

lemma sendSegments_ok:
  "\<forall>log sql args. Metabase_Exec e log sql args = None \<Longrightarrow> fst (sendSegments e m) = None"
  by (simp add: sendSegments_def Exec_def)

lemma push_object_ok:
  "\<forall>log sql args. Metabase_Exec e log sql args = None \<Longrightarrow> fst (push_object e m row) = None"
  by (simp add: push_object_def Let_def sendObjects_ok)

lemma push_segment_ok:
  "\<forall>log sql args. Metabase_Exec e log sql args = None \<Longrightarrow> fst (push_segment e m row) = None"
  by (simp add: push_segment_def Let_def sendSegments_ok)

lemma push_segments_ok:
  "\<forall>log sql args. Metabase_Exec e log sql args = None \<Longrightarrow> fst (push_segments e m rows) = None"
proof (induction rows arbitrary: m)
  case Nil
  then show ?case by simp
next
  case (Cons row rows)
  obtain r m' where p: "push_segment e m row = (r, m')" by (cases "push_segment e m row")
  with push_segment_ok[OF Cons.prems, of m row] have "r = None" by simp
  with p Cons show ?case by simp
qed


subsection \<open>The index expression on the key\<close>

lemma migrate_item_no_panic:
  "Key item \<noteq> [] \<Longrightarrow> fst (migrate_item e st item) \<noteq> Panic s"
  by (cases st; cases "Key item")
     (auto simp: migrate_item_def Let_def split: sum.splits prod.splits option.splits)

lemma migrate_item_panic:
  "Key item = [] \<Longrightarrow> Unmarshal_Pointer e (Value item) = Inr pointer \<Longrightarrow>
   migrate_item e (m, lastKey) item = (Panic ''index out of range [0] with length 0'', m, lastKey)"
  by (simp add: migrate_item_def)

lemma iterate_items_no_panic:
  "\<forall>item \<in> set items. Key item \<noteq> [] \<Longrightarrow> fst (iterate_items e items st) \<noteq> Panic s"
proof (induction items arbitrary: st)
  case Nil
  then show ?case by simp
next
  case (Cons a items)
  obtain out st' where mi: "migrate_item e st a = (out, st')"
    by (cases "migrate_item e st a") auto
  have "out \<noteq> Panic s"
    using migrate_item_no_panic[of a e st s] Cons.prems mi by simp
  then show ?case
    using mi Cons by (cases out) simp_all
qed

lemma ListV2Iterate_no_panic:
  assumes "\<forall>item \<in> set (Items (PointerDB_List e prefix startAfter)). Key item \<noteq> []"
  shows "fst (snd (ListV2Iterate e prefix startAfter m)) \<noteq> Panic s"
proof -
  obtain out st' where it:
    "iterate_items e (Items (PointerDB_List e prefix startAfter)) (m, startAfter) = (out, st')"
    by (cases "iterate_items e (Items (PointerDB_List e prefix startAfter)) (m, startAfter)") auto
  have "out \<noteq> Panic s"
    using iterate_items_no_panic[OF assms, of e "(m, startAfter)" s] it by simp
  then show ?thesis
    using it by (cases out) (auto simp: ListV2Iterate_def Let_def split: option.splits)
qed

lemma MigrateBucket_loop_no_panic:
  assumes run: "MigrateBucket_loop e path more0 lastKey m = Some r"
    and keys: "\<forall>prefix startAfter. \<forall>item \<in> set (Items (PointerDB_List e prefix startAfter)).
                 Key item \<noteq> []"
  shows "fst r \<noteq> Panic s"
proof -
  let ?P = "\<lambda>(e' :: env) (path' :: bytes) (more' :: bool) (lk' :: bytes) (m' :: Migrator)
              (r' :: outcome \<times> Migrator). e' = e \<longrightarrow> fst r' \<noteq> Panic s"
  have "?P e path more0 lastKey m r"
  proof (rule MigrateBucket_loop.raw_induct[where P = ?P, OF _ run])
    fix loop e' path' more' lk' m' r'
    assume IH: "\<And>a b c d f y. loop a b c d f = Some y \<Longrightarrow> a = e \<longrightarrow> fst y \<noteq> Panic s"
      and step: "(if more' then
                    (case ListV2Iterate e' path' lk' m' of
                       (more1, Done, m'', lk'') \<Rightarrow> loop e' path' more1 lk'' m''
                     | (more1, out, m'', lk'') \<Rightarrow> Some (out, m''))
                  else Some (Done, m')) = Some r'"
    show "e' = e \<longrightarrow> fst r' \<noteq> Panic s"
    proof
      assume e: "e' = e"
      obtain more1 out m1 lk1 where it: "ListV2Iterate e' path' lk' m' = (more1, out, m1, lk1)"
        by (metis prod_cases4)
      have np: "out \<noteq> Panic s"
        using ListV2Iterate_no_panic[where e = e and prefix = path' and startAfter = lk' and m = m' and s = s] keys it e by simp
      show "fst r' \<noteq> Panic s"
      proof (cases more')
        case False
        with step show ?thesis by auto
      next
        case True
        show ?thesis
        proof (cases out)
          case Done
          with True step it have "loop e' path' more1 lk1 m1 = Some r'" by simp
          from IH[OF this] e show ?thesis by simp
        next
          case (Failed err)
          with True step it show ?thesis by auto
        next
          case (Panic t)
          with True step it np show ?thesis by auto
        qed
      qed
    qed
  qed
  then show ?thesis by simp
qed

lemma flush_remaining_no_panic: "flush_remaining e m = Some r \<Longrightarrow> fst r \<noteq> Panic s"
  by (auto simp: flush_remaining_def split: if_splits option.splits prod.splits)

lemma MigrateBucket_no_panic:
  assumes "\<forall>prefix startAfter. \<forall>item \<in> set (Items (PointerDB_List e prefix startAfter)).
             Key item \<noteq> []"
  shows "MigrateBucket e m \<noteq> Some (Panic s, m')"
proof
  assume mb: "MigrateBucket e m = Some (Panic s, m')"
  show False
  proof (cases "CreatePath e (ProjectID m) (- 1) (BucketName m) []")
    case (Inl err)
    with mb show False by (simp add: MigrateBucket_def)
  next
    case (Inr path)
    show False
    proof (cases "MigrateBucket_loop e path True [] m")
      case None
      with mb Inr show False by (simp add: MigrateBucket_def)
    next
      case (Some r)
      obtain out m1 where r: "r = (out, m1)" by (cases r)
      have np: "out \<noteq> Panic s"
        using MigrateBucket_loop_no_panic[OF Some assms, of s] r by simp
      show False
      proof (cases out)
        case Done
        with mb Inr Some r have "flush_remaining e m1 = Some (Panic s, m')"
          by (simp add: MigrateBucket_def)
        from flush_remaining_no_panic[OF this, of s] show False by simp
      next
        case (Failed err)
        with mb Inr Some r show False by (simp add: MigrateBucket_def)
      next
        case (Panic t)
        with mb Inr Some r np show False by (simp add: MigrateBucket_def)
      qed
    qed
  qed
qed

lemma MigrateBucket_panics:
  assumes "CreatePath e (ProjectID m) (- 1) (BucketName m) [] = Inr path"
    and "after_pages e path k ([], m) = Some (lastKey, m0)"
    and "Items (PointerDB_List e path lastKey) = pre @ item # post"
    and "iterate_items e pre (m0, lastKey) = (Done, m1, lastKey1)"
    and "Unmarshal_Pointer e (Value item) = Inr pointer"
    and "Key item = []"
  shows "MigrateBucket e m = Some (Panic ''index out of range [0] with length 0'', m1)"
proof -
  have mi: "migrate_item e (m1, lastKey1) item =
      (Panic ''index out of range [0] with length 0'', m1, lastKey1)"
    using assms(6,5) by (rule migrate_item_panic)
  have "ListV2Iterate e path lastKey m0 =
      (False, Panic ''index out of range [0] with length 0'', m1, lastKey1)"
    using assms(3,4) mi by (rule ListV2Iterate_stops) simp
  then have "MigrateBucket_loop e path True lastKey m0 =
      Some (Panic ''index out of range [0] with length 0'', m1)"
    by (rule MigrateBucket_loop_failed) simp
  then have "MigrateBucket_loop e path True [] m =
      Some (Panic ''index out of range [0] with length 0'', m1)"
    using after_pages_loop[OF assms(2)] by simp
  then show ?thesis
    using assms(1) by (simp add: MigrateBucket_def)
qed

subsection \<open>Evaluation of the example store\<close>

lemma ex_env_sel [simp]:
  "Unmarshal_Pointer (ex_env items r) = ex_Unmarshal_Pointer"
  "Unmarshal_StreamMeta (ex_env items r) = ex_Unmarshal_StreamMeta"
  "CreatePath (ex_env items r) = ex_CreatePath"
  "PointerDB_Get (ex_env items r) = ex_Get"
  "PointerDB_List (ex_env items r) = ex_List items"
  "NewUUID_nth (ex_env items r) k = Inr (of_nat k + 100)"
  "Metabase_Exec (ex_env items r) log sql args = r"
  "SegmentPosition_Encode (ex_env items r) = ex_Encode_position"
  "NodeAliases_Encode (ex_env items r) = ex_Encode_aliases"
  by (simp_all add: ex_env_def)

lemma ex_decode [simp]:
  "ex_Unmarshal_Pointer ''ptr-a'' = Inr ptr_a"
  "ex_Unmarshal_Pointer ''ptr-a0'' = Inr ptr_a0"
  "ex_Unmarshal_Pointer ''ptr-a1'' = Inr ptr_a1"
  "ex_Unmarshal_Pointer ''ptr-b'' = Inr ptr_b"
  "ex_Unmarshal_Pointer ''ptr-z'' = Inr ptr_z"
  "ex_Unmarshal_StreamMeta ''meta-a'' = Inr meta_a"
  "ex_Unmarshal_StreamMeta ''meta-own'' = Inr meta_own"
  "ex_Unmarshal_StreamMeta ''meta-seg'' = Inr meta_seg"
  "ex_Unmarshal_StreamMeta ''meta-b'' = Inr meta_b"
  "ex_Unmarshal_StreamMeta ''meta-z'' = Inr meta_z"
  by (simp_all add: ex_Unmarshal_Pointer_def ex_Unmarshal_StreamMeta_def)

lemma ex_paths [simp]:
  "ex_CreatePath p (- 1) ''bucket'' [] = Inr ''l/bucket''"
  "ex_CreatePath p 0 ''bucket'' ''a'' = Inr ''s0/bucket/a''"
  "ex_CreatePath p 1 ''bucket'' ''a'' = Inr ''s1/bucket/a''"
  "ex_Get ''s0/bucket/a'' = Inr ''ptr-a0''"
  "ex_Get ''s1/bucket/a'' = Inr ''ptr-a1''"
  by (simp_all add: ex_CreatePath_def ex_Get_def fmt_d_def digits.simps)

lemma ex_positions [simp]:
  "ex_Encode_position \<lparr>Part = 0, Segment = 0\<rparr> = 0"
  "ex_Encode_position \<lparr>Part = 0, Segment = 1\<rparr> = 1"
  "ex_Encode_position \<lparr>Part = 0, Segment = 2\<rparr> = 2"
  by (simp_all add: ex_Encode_position_def)

lemma ex_insert_b:
  "insertObject (ex_env items r) (ex_migrator 500) ''b'' ptr_b = (None, migrated_b)"
  apply (simp add: insertObject_def insertSegment_def ptr_b_def meta_b_def ex_migrator_def
      migrated_b_def row_b_object_def row_b_segment_def objectsArgs_def segmentsArgs_def Let_def)
  apply (subst insertObject_loop.simps)
  apply simp
  done

lemma ex_insert_a:
  "insertObject (ex_env items r) (ex_migrator 500) ''a'' ptr_a = (None, migrated_a)"
  apply (simp add: insertObject_def insertSegment_def ptr_a_def meta_a_def ex_migrator_def
      migrated_a_def row_a_object_def rows_a_segments_def objectsArgs_def segmentsArgs_def Let_def)
  apply (subst insertObject_loop.simps)
  apply (simp add: insertSegment_def ptr_a0_def meta_own_def segmentsArgs_def Let_def)
  apply (subst insertObject_loop.simps)
  apply (simp add: insertSegment_def ptr_a1_def meta_seg_def segmentsArgs_def Let_def)
  apply (subst insertObject_loop.simps)
  apply simp
  done

lemma ex_loop_b:
  "MigrateBucket_loop (ex_env [item_b] r) ''l/bucket'' True [] (ex_migrator 500) =
     Some (Done, migrated_b)"
proof -
  have "migrate_item (ex_env [item_b] r) (ex_migrator 500, []) item_b = (Done, migrated_b, ''/b'')"
    by (simp add: migrate_item_def item_b_def ex_insert_b)
  then have "ListV2Iterate (ex_env [item_b] r) ''l/bucket'' [] (ex_migrator 500) =
      (False, Done, migrated_b, ''/b'')"
    by (simp add: ListV2Iterate_def ex_List_def)
  from MigrateBucket_loop_next[OF this] show ?thesis
    by (simp add: MigrateBucket_loop_end)
qed

lemma ex_migrator_sel [simp]:
  "ProjectID (ex_migrator n) = 42" "BucketName (ex_migrator n) = ''bucket''"
  "Objects (ex_migrator n) = []" "Segments (ex_migrator n) = []" "Metabase (ex_migrator n) = []"
  "UUIDs (ex_migrator n) = 0" "BatchSize (ex_migrator n) = n"
  by (simp_all add: ex_migrator_def)

lemma migrated_b_sel [simp]:
  "Objects migrated_b = row_b_object" "Segments migrated_b = row_b_segment"
  "Metabase migrated_b = []"
  by (simp_all add: migrated_b_def)

lemma row_b_length [simp]:
  "length row_b_object = 10" "length row_b_segment = 8" "row_b_object \<noteq> []" "row_b_segment \<noteq> []"
  by (simp_all add: row_b_object_def row_b_segment_def)

lemma ex_fetch_a:
  "\<forall>i. 0 \<le> i \<and> i < sint (NumberOfSegments meta_a) - 1 \<longrightarrow>
     CreatePath (ex_env items r) (ProjectID (ex_migrator n)) (word_of_int i)
       (BucketName (ex_migrator n)) ''a'' =
       Inr (if i = 0 then ''s0/bucket/a'' else ''s1/bucket/a'') \<and>
     PointerDB_Get (ex_env items r) (if i = 0 then ''s0/bucket/a'' else ''s1/bucket/a'') =
       Inr (if i = 0 then ''ptr-a0'' else ''ptr-a1'') \<and>
     Unmarshal_Pointer (ex_env items r) (if i = 0 then ''ptr-a0'' else ''ptr-a1'') = Inr (a_ptr i) \<and>
     Unmarshal_StreamMeta (ex_env items r) (Metadata (a_ptr i)) = Inr (a_meta i)"
proof (intro allI impI)
  fix i :: int
  assume "0 \<le> i \<and> i < sint (NumberOfSegments meta_a) - 1"
  then have "i = 0 \<or> i = 1" by (auto simp: meta_a_def)
  then show "CreatePath (ex_env items r) (ProjectID (ex_migrator n)) (word_of_int i)
       (BucketName (ex_migrator n)) ''a'' =
       Inr (if i = 0 then ''s0/bucket/a'' else ''s1/bucket/a'') \<and>
     PointerDB_Get (ex_env items r) (if i = 0 then ''s0/bucket/a'' else ''s1/bucket/a'') =
       Inr (if i = 0 then ''ptr-a0'' else ''ptr-a1'') \<and>
     Unmarshal_Pointer (ex_env items r) (if i = 0 then ''ptr-a0'' else ''ptr-a1'') = Inr (a_ptr i) \<and>
     Unmarshal_StreamMeta (ex_env items r) (Metadata (a_ptr i)) = Inr (a_meta i)"
    by (auto simp: a_ptr_def a_meta_def ptr_a0_def ptr_a1_def)
qed

lemma upto_0_1: "[0..1::int] = [0, 1]"
  by (simp add: upto.simps)

lemma ex_rows_a:
  "object_segment_rows (ex_env items r) 100 ptr_a meta_a a_ptr a_meta =
     [take 8 rows_a_segments, take 8 (drop 8 rows_a_segments), drop 16 rows_a_segments]"
  by (simp add: object_segment_rows_def segment_row_def last_segment_key_def last_segment_nonce_def
      rows_a_segments_def meta_a_def ptr_a_def a_ptr_def a_meta_def ptr_a0_def ptr_a1_def
      meta_own_def meta_seg_def upto_0_1)

subsection \<open>Runs whose listing ends\<close>

lemma MigrateBucket_loop_last_page:
  assumes "ListV2Iterate e path lastKey m = (False, out, m', lastKey')"
  shows "MigrateBucket_loop e path True lastKey m = Some (out, m')"
proof (cases "out = Done")
  case True
  with assms MigrateBucket_loop_next[of e path lastKey m False m' lastKey'] show ?thesis
    by (simp add: MigrateBucket_loop_end)
next
  case False
  with assms show ?thesis by (rule MigrateBucket_loop_failed)
qed

lemma MigrateBucket_returns:
  assumes "CreatePath e (ProjectID m) (- 1) (BucketName m) [] = Inr path"
    and "after_pages e path k ([], m) = Some (lastKey, m0)"
    and "ListV2Iterate e path lastKey m0 = (False, out, m1, lastKey1)"
    and "length (Objects m1) < 2 ^ 63" and "length (Segments m1) < 2 ^ 63"
  shows "\<exists>r. MigrateBucket e m = Some r"
proof -
  have loop: "MigrateBucket_loop e path True [] m = Some (out, m1)"
    using after_pages_loop[OF assms(2)] MigrateBucket_loop_last_page[OF assms(3)] by simp
  show ?thesis
  proof (cases out)
    case Done
    with loop assms(1) have "MigrateBucket e m = flush_remaining e m1"
      by (simp add: MigrateBucket_def)
    then show ?thesis
      using flush_remaining_sized[OF assms(4,5), of e] by (simp add: Let_def)
  next
    case (Failed err)
    with loop assms(1) show ?thesis by (simp add: MigrateBucket_def)
  next
    case (Panic t)
    with loop assms(1) show ?thesis by (simp add: MigrateBucket_def)
  qed
qed

subsection \<open>The claims about the migrator\<close>

text \<open>
  C1 (amended). For every listed legacy record with a non-empty key whose pointer decodes
  and whose stream metadata declares a segment count of zero, \<^verbatim>\<open>insertObject\<close> returns the
  error \<^verbatim>\<open>unsupported case\<close> and leaves the migrator exactly as it was: no object row and no
  segment row is emitted for that object. The callback passes the error on, the listing
  stops, and \<^verbatim>\<open>MigrateBucket\<close> returns that error with the migrator as the keys before
  had left it: no later key is processed, the buffers are not flushed, the run is aborted.
  (\<open>after_pages\<close> and \<open>iterate_items\<close> on \<open>pre\<close> say that the pages and the keys before the
  record were migrated without error.)
\<close>

theorem zero_segments_aborts_run:
  assumes "CreatePath e (ProjectID m) (- 1) (BucketName m) [] = Inr path"
    and "after_pages e path k ([], m) = Some (lastKey, m0)"
    and "Items (PointerDB_List e path lastKey) = pre @ item # post"
    and "iterate_items e pre (m0, lastKey) = (Done, m1, lastKey1)"
    and "Unmarshal_Pointer e (Value item) = Inr pointer"
    and "Key item \<noteq> []"
    and "Unmarshal_StreamMeta e (Metadata pointer) = Inr sm"
    and "NumberOfSegments sm = 0"
  shows "insertObject e m1 (if hd (Key item) = CHR ''/'' then tl (Key item) else Key item) pointer =
           (Some (Error ''unsupported case''), m1)
       \<and> migrate_item e (m1, lastKey1) item = (Failed (Error ''unsupported case''), m1, lastKey1)
       \<and> MigrateBucket e m = Some (Failed (Error ''unsupported case''), m1)"
proof -
  have mi: "migrate_item e (m1, lastKey1) item = (Failed (Error ''unsupported case''), m1, lastKey1)"
    using assms(5-8) by (rule migrate_item_zero)
  have "ListV2Iterate e path lastKey m0 = (False, Failed (Error ''unsupported case''), m1, lastKey1)"
    using assms(3,4) mi by (rule ListV2Iterate_stops) simp
  then have "MigrateBucket_loop e path True lastKey m0 = Some (Failed (Error ''unsupported case''), m1)"
    by (rule MigrateBucket_loop_failed) simp
  then have "MigrateBucket_loop e path True [] m = Some (Failed (Error ''unsupported case''), m1)"
    using after_pages_loop[OF assms(2)] by simp
  then have "MigrateBucket e m = Some (Failed (Error ''unsupported case''), m1)"
    using assms(1) by (simp add: MigrateBucket_def)
  then show ?thesis
    using assms(7,8) mi by (simp add: insertObject_zero)
qed

text \<open>
  The theorem on a listing of the record \<open>z\<close>, which declares no segment, followed by the
  object \<open>b\<close>.
\<close>

theorem zero_segments_aborts_run_witness:
  "CreatePath (ex_env [item_z, item_b] None) (ProjectID (ex_migrator 500)) (- 1)
     (BucketName (ex_migrator 500)) [] = Inr ''l/bucket'' \<and>
   Items (PointerDB_List (ex_env [item_z, item_b] None) ''l/bucket'' []) = [] @ item_z # [item_b] \<and>
   Unmarshal_Pointer (ex_env [item_z, item_b] None) (Value item_z) = Inr ptr_z \<and>
   Key item_z \<noteq> [] \<and>
   Unmarshal_StreamMeta (ex_env [item_z, item_b] None) (Metadata ptr_z) = Inr meta_z \<and>
   NumberOfSegments meta_z = 0 \<and>
   insertObject (ex_env [item_z, item_b] None) (ex_migrator 500) ''z'' ptr_z =
     (Some (Error ''unsupported case''), ex_migrator 500) \<and>
   migrate_item (ex_env [item_z, item_b] None) (ex_migrator 500, []) item_z =
     (Failed (Error ''unsupported case''), ex_migrator 500, []) \<and>
   MigrateBucket (ex_env [item_z, item_b] None) (ex_migrator 500) =
     Some (Failed (Error ''unsupported case''), ex_migrator 500)"
proof -
  let ?e = "ex_env [item_z, item_b] None"
  have h1: "CreatePath ?e (ProjectID (ex_migrator 500)) (- 1) (BucketName (ex_migrator 500)) [] =
      Inr ''l/bucket''" by simp
  have h2: "after_pages ?e ''l/bucket'' 0 ([], ex_migrator 500) = Some ([], ex_migrator 500)"
    by simp
  have h3: "Items (PointerDB_List ?e ''l/bucket'' []) = [] @ item_z # [item_b]"
    by (simp add: ex_List_def)
  have h4: "iterate_items ?e [] (ex_migrator 500, []) = (Done, ex_migrator 500, [])"
    by simp
  have h5: "Unmarshal_Pointer ?e (Value item_z) = Inr ptr_z" by (simp add: item_z_def)
  have h6: "Key item_z \<noteq> []" by (simp add: item_z_def)
  have h7: "Unmarshal_StreamMeta ?e (Metadata ptr_z) = Inr meta_z" by (simp add: ptr_z_def)
  have h8: "NumberOfSegments meta_z = 0" by (simp add: meta_z_def)
  from zero_segments_aborts_run[OF h1 h2 h3 h4 h5 h6 h7 h8] h1 h3 h5 h6 h7 h8
  show ?thesis by (simp add: item_z_def)
qed

text \<open>
  C1 as stated fails: in that listing the object \<open>b\<close> follows the record \<open>z\<close>, and the run
  ends with the error of \<open>z\<close>, nothing buffered and nothing submitted, although \<open>b\<close> listed
  alone is migrated and flushed.
\<close>

theorem zero_segments_stops_later_keys:
  "Items (PointerDB_List (ex_env [item_z, item_b] None) ''l/bucket'' []) = [item_z, item_b] \<and>
   MigrateBucket (ex_env [item_z, item_b] None) (ex_migrator 500) =
     Some (Failed (Error ''unsupported case''), ex_migrator 500) \<and>
   Objects (ex_migrator 500) = [] \<and> Segments (ex_migrator 500) = [] \<and>
   Metabase (ex_migrator 500) = [] \<and>
   MigrateBucket (ex_env [item_b] None) (ex_migrator 500) =
     Some (Done, migrated_b\<lparr>Metabase :=
       [(objects_sql_head @ values_clause 10 1, row_b_object),
        (segments_sql_head @ values_clause 8 1, row_b_segment)]\<rparr>)"
proof -
  let ?e = "ex_env [item_z, item_b] None"
  have mi: "migrate_item ?e (ex_migrator 500, []) item_z =
      (Failed (Error ''unsupported case''), ex_migrator 500, [])"
    by (rule migrate_item_zero[where pointer = ptr_z and sm = meta_z])
      (simp_all add: item_z_def ptr_z_def meta_z_def)
  have "ListV2Iterate ?e ''l/bucket'' [] (ex_migrator 500) =
      (False, Failed (Error ''unsupported case''), ex_migrator 500, [])"
    by (rule ListV2Iterate_stops[where pre = "[]" and item = item_z and post = "[item_b]"
          and ?st1.0 = "(ex_migrator 500, [])"])
      (simp_all add: mi ex_List_def)
  then have "MigrateBucket_loop ?e ''l/bucket'' True [] (ex_migrator 500) =
      Some (Failed (Error ''unsupported case''), ex_migrator 500)"
    by (rule MigrateBucket_loop_failed) simp
  then have z: "MigrateBucket ?e (ex_migrator 500) =
      Some (Failed (Error ''unsupported case''), ex_migrator 500)"
    by (simp add: MigrateBucket_def)
  have h3: "length (Objects migrated_b) < 2 ^ 63" by simp
  have h4: "length (Segments migrated_b) < 2 ^ 63" by simp
  have "MigrateBucket (ex_env [item_b] None) (ex_migrator 500) =
      flush_remaining (ex_env [item_b] None) migrated_b"
    by (rule MigrateBucket_flush[where path = "''l/bucket''"]) (simp_all add: ex_loop_b)
  then have b: "MigrateBucket (ex_env [item_b] None) (ex_migrator 500) =
     Some (Done, migrated_b\<lparr>Metabase :=
       [(objects_sql_head @ values_clause 10 1, row_b_object),
        (segments_sql_head @ values_clause 8 1, row_b_segment)]\<rparr>)"
    using flush_remaining_sized[OF h3 h4, of "ex_env [item_b] None"] by (simp add: Let_def)
  show ?thesis
    using z b by (simp add: ex_List_def)
qed

text \<open>
  C5 (amended). For every object of \<open>N \<ge> 1\<close> segments whose records are found and decode
  and whose stream identifier is generated, \<^verbatim>\<open>insertObject\<close> hands over the object row and
  then the \<open>N\<close> segment rows \<open>object_segment_rows\<close>: first the row of the last segment, then
  the rows of the segments \<open>0, ..., N - 2\<close>. The row of the last segment carries the
  encrypted key and the key nonce of the last-segment section of the stream-level metadata
  (both empty when the section is absent). The row of every other segment \<open>i\<close> carries the
  key and the nonce of the last-segment section of the stream metadata \<open>meta i\<close> decoded from
  that segment record's own metadata, and they are empty when that section is absent.
\<close>

theorem segment_rows_key_and_nonce:
  assumes "Unmarshal_StreamMeta e (Metadata pointer) = Inr sm"
    and "1 \<le> sint (NumberOfSegments sm)"
    and "NewUUID_nth e (UUIDs m) = Inr streamID"
    and "\<forall>i. 0 \<le> i \<and> i < sint (NumberOfSegments sm) - 1 \<longrightarrow>
            CreatePath e (ProjectID m) (word_of_int i) (BucketName m) encryptedPath = Inr (path i) \<and>
            PointerDB_Get e (path i) = Inr (val i) \<and>
            Unmarshal_Pointer e (val i) = Inr (ptr i) \<and>
            Unmarshal_StreamMeta e (Metadata (ptr i)) = Inr (meta i)"
  shows "insertObject e m encryptedPath pointer =
           (case push_object e (m\<lparr>UUIDs := Suc (UUIDs m)\<rparr>)
                   (object_row m encryptedPath pointer streamID (NumberOfSegments sm)) of
              (Some err, m1) \<Rightarrow> (Some err, m1)
            | (None, m1) \<Rightarrow> push_segments e m1 (object_segment_rows e streamID pointer sm ptr meta))
       \<and> length (object_segment_rows e streamID pointer sm ptr meta) = nat (sint (NumberOfSegments sm))
       \<and> (object_segment_rows e streamID pointer sm ptr meta) ! 0 ! 1 = ArgUint64 (SegmentPosition_Encode e
            \<lparr>Part = 0, Segment = word_of_int (sint (NumberOfSegments sm) - 1)\<rparr>)
       \<and> (object_segment_rows e streamID pointer sm ptr meta) ! 0 ! 3 =
            ArgBytes (case LastSegmentMeta sm of None \<Rightarrow> [] | Some l \<Rightarrow> EncryptedKey l)
       \<and> (object_segment_rows e streamID pointer sm ptr meta) ! 0 ! 4 =
            ArgBytes (case LastSegmentMeta sm of None \<Rightarrow> [] | Some l \<Rightarrow> KeyNonce l)
       \<and> (\<forall>i. 0 \<le> i \<and> i < sint (NumberOfSegments sm) - 1 \<longrightarrow>
            (object_segment_rows e streamID pointer sm ptr meta) ! (nat i + 1) ! 1 =
              ArgUint64 (SegmentPosition_Encode e \<lparr>Part = 0, Segment = word_of_int i\<rparr>) \<and>
            (object_segment_rows e streamID pointer sm ptr meta) ! (nat i + 1) ! 3 =
              ArgBytes (case LastSegmentMeta (meta i) of None \<Rightarrow> [] | Some l \<Rightarrow> EncryptedKey l) \<and>
            (object_segment_rows e streamID pointer sm ptr meta) ! (nat i + 1) ! 4 =
              ArgBytes (case LastSegmentMeta (meta i) of None \<Rightarrow> [] | Some l \<Rightarrow> KeyNonce l))"
proof -
  have "insertObject e m encryptedPath pointer =
           (case push_object e (m\<lparr>UUIDs := Suc (UUIDs m)\<rparr>)
                   (object_row m encryptedPath pointer streamID (NumberOfSegments sm)) of
              (Some err, m1) \<Rightarrow> (Some err, m1)
            | (None, m1) \<Rightarrow> push_segments e m1 (object_segment_rows e streamID pointer sm ptr meta))"
    using insertObject_push[OF assms(1,2,3,4)]
    by simp
  moreover have "length (object_segment_rows e streamID pointer sm ptr meta) = nat (sint (NumberOfSegments sm))"
    using assms(2) by (simp add: object_segment_rows_def)
  moreover have "\<forall>i. 0 \<le> i \<and> i < sint (NumberOfSegments sm) - 1 \<longrightarrow>
      (object_segment_rows e streamID pointer sm ptr meta) ! (nat i + 1) = segment_row e streamID (word_of_int i) (ptr i) (meta i)"
    by (simp add: object_segment_rows_def nth_upto)
  ultimately show ?thesis
    by (simp add: segment_row_def last_segment_key_def last_segment_nonce_def)
      (simp add: object_segment_rows_def segment_row_def last_segment_key_def
        last_segment_nonce_def)
qed

text \<open>
  The theorem on the object \<open>a\<close> of three segments: the last segment's row carries the
  stream-level key, the row of segment 0 the key of that record's own metadata, the row of
  segment 1 none.
\<close>

theorem segment_rows_key_and_nonce_witness:
  "Unmarshal_StreamMeta (ex_env [] None) (Metadata ptr_a) = Inr meta_a \<and>
   1 \<le> sint (NumberOfSegments meta_a) \<and>
   NewUUID_nth (ex_env [] None) (UUIDs (ex_migrator 500)) = Inr 100 \<and>
   object_segment_rows (ex_env [] None) 100 ptr_a meta_a a_ptr a_meta ! 0 ! 3 = ArgBytes ''key-a'' \<and>
   object_segment_rows (ex_env [] None) 100 ptr_a meta_a a_ptr a_meta ! 0 ! 4 = ArgBytes ''nonce-a'' \<and>
   object_segment_rows (ex_env [] None) 100 ptr_a meta_a a_ptr a_meta ! 1 ! 3 = ArgBytes ''key-0'' \<and>
   object_segment_rows (ex_env [] None) 100 ptr_a meta_a a_ptr a_meta ! 1 ! 4 = ArgBytes ''nonce-0'' \<and>
   object_segment_rows (ex_env [] None) 100 ptr_a meta_a a_ptr a_meta ! 2 ! 3 = ArgBytes [] \<and>
   object_segment_rows (ex_env [] None) 100 ptr_a meta_a a_ptr a_meta ! 2 ! 4 = ArgBytes []"
proof -
  let ?e = "ex_env [] None"
  let ?rows = "object_segment_rows ?e 100 ptr_a meta_a a_ptr a_meta"
  have h1: "Unmarshal_StreamMeta ?e (Metadata ptr_a) = Inr meta_a"
    by (simp add: ptr_a_def)
  have h2: "1 \<le> sint (NumberOfSegments meta_a)"
    by (simp add: meta_a_def)
  have h3: "NewUUID_nth ?e (UUIDs (ex_migrator 500)) = Inr 100"
    by simp
  note t = segment_rows_key_and_nonce[OF h1 h2 h3 ex_fetch_a]
  from t have last: "?rows ! 0 ! 3 =
        ArgBytes (case LastSegmentMeta meta_a of None \<Rightarrow> [] | Some l \<Rightarrow> EncryptedKey l)
      \<and> ?rows ! 0 ! 4 =
        ArgBytes (case LastSegmentMeta meta_a of None \<Rightarrow> [] | Some l \<Rightarrow> KeyNonce l)"
    by blast
  from t have rest: "\<forall>i. 0 \<le> i \<and> i < sint (NumberOfSegments meta_a) - 1 \<longrightarrow>
        ?rows ! (nat i + 1) ! 3 =
          ArgBytes (case LastSegmentMeta (a_meta i) of None \<Rightarrow> [] | Some l \<Rightarrow> EncryptedKey l) \<and>
        ?rows ! (nat i + 1) ! 4 =
          ArgBytes (case LastSegmentMeta (a_meta i) of None \<Rightarrow> [] | Some l \<Rightarrow> KeyNonce l)"
    by blast
  have r0: "?rows ! 1 ! 3 = ArgBytes ''key-0'' \<and> ?rows ! 1 ! 4 = ArgBytes ''nonce-0''"
    using rest[rule_format, of 0] by (simp add: meta_a_def a_meta_def meta_own_def)
  have r1: "?rows ! 2 ! 3 = ArgBytes [] \<and> ?rows ! 2 ! 4 = ArgBytes []"
    using rest[rule_format, of 1] by (simp add: meta_a_def a_meta_def meta_seg_def numeral_2_eq_2)
  from last have l0: "?rows ! 0 ! 3 = ArgBytes ''key-a'' \<and> ?rows ! 0 ! 4 = ArgBytes ''nonce-a''"
    by (simp add: meta_a_def)
  from h1 h2 h3 l0 r0 r1 show ?thesis by blast
qed

text \<open>
  C5 as stated fails: the row of the non-last segment 0 of \<open>a\<close> (the second row in the
  buffer, values 8 to 15) has a non-empty encrypted key and key nonce.
\<close>

theorem non_last_segment_row_carries_key:
  "insertObject (ex_env [] None) (ex_migrator 500) ''a'' ptr_a = (None, migrated_a) \<and>
   length (Segments migrated_a) = 24 \<and>
   Segments migrated_a ! 9 = ArgUint64 (ex_Encode_position \<lparr>Part = 0, Segment = 0\<rparr>) \<and>
   Segments migrated_a ! 11 = ArgBytes ''key-0'' \<and>
   Segments migrated_a ! 12 = ArgBytes ''nonce-0'' \<and>
   Segments migrated_a ! 11 \<noteq> ArgBytes [] \<and>
   Segments migrated_a ! 12 \<noteq> ArgBytes []"
  using ex_insert_a[of "[]" None]
  by (simp add: migrated_a_def rows_a_segments_def)

text \<open>
  C6 (amended). For every legacy object record declaring \<open>N \<ge> 1\<close> segments whose records
  all decode and fetch successfully (the own metadata of every fetched record included), and
  for which the stream identifier is generated, every legacy key is constructed and the
  target database accepts every statement, \<^verbatim>\<open>insertObject\<close> returns without error after
  handing over exactly one object row, carrying project id, bucket name, encrypted path,
  version \<open>- 1\<close>, the new stream id, the two timestamps, status committed, segment count \<open>N\<close>
  and the metadata, and then exactly \<open>N\<close> segment rows with the encoded positions
  (part 0, index \<open>i\<close> as a 32-bit value) in the order \<open>i = N - 1, 0, 1, ..., N - 2\<close>, the row
  of index \<open>N - 1\<close> built from the listed record and each other row from the fetched record
  \<open>ptr i\<close>.
\<close>

theorem insertObject_emits_rows:
  assumes "Unmarshal_StreamMeta e (Metadata pointer) = Inr sm"
    and "1 \<le> sint (NumberOfSegments sm)"
    and "NewUUID_nth e (UUIDs m) = Inr streamID"
    and "\<forall>i. 0 \<le> i \<and> i < sint (NumberOfSegments sm) - 1 \<longrightarrow>
            CreatePath e (ProjectID m) (word_of_int i) (BucketName m) encryptedPath = Inr (path i) \<and>
            PointerDB_Get e (path i) = Inr (val i) \<and>
            Unmarshal_Pointer e (val i) = Inr (ptr i) \<and>
            Unmarshal_StreamMeta e (Metadata (ptr i)) = Inr (meta i)"
    and "\<forall>log sql args. Metabase_Exec e log sql args = None"
  shows "\<exists>m1 m'.
      push_object e (m\<lparr>UUIDs := Suc (UUIDs m)\<rparr>)
        [ArgUUID (ProjectID m), ArgBytes (BucketName m), ArgBytes encryptedPath, ArgInt (- 1),
         ArgUUID streamID, ArgTime (CreationDate pointer), ArgTime (ExpirationDate pointer),
         ArgStatus Committed, ArgInt64 (NumberOfSegments sm), ArgBytes (Metadata pointer)] =
        (None, m1) \<and>
      push_segments e m1 (object_segment_rows e streamID pointer sm ptr meta) = (None, m') \<and>
      insertObject e m encryptedPath pointer = (None, m') \<and>
      length (object_segment_rows e streamID pointer sm ptr meta) = nat (sint (NumberOfSegments sm)) \<and>
      map (\<lambda>row. row ! 1) (object_segment_rows e streamID pointer sm ptr meta) =
        map (\<lambda>i. ArgUint64 (SegmentPosition_Encode e \<lparr>Part = 0, Segment = word_of_int i\<rparr>))
          ((sint (NumberOfSegments sm) - 1) # [0..sint (NumberOfSegments sm) - 2])"
proof -
  let ?orow = "object_row m encryptedPath pointer streamID (NumberOfSegments sm)"
  obtain r1 m1 where p1: "push_object e (m\<lparr>UUIDs := Suc (UUIDs m)\<rparr>) ?orow = (r1, m1)"
    by (cases "push_object e (m\<lparr>UUIDs := Suc (UUIDs m)\<rparr>) ?orow")
  have r1: "r1 = None"
    using push_object_ok[OF assms(5), of "m\<lparr>UUIDs := Suc (UUIDs m)\<rparr>" ?orow] p1 by simp
  obtain r2 m' where p2: "push_segments e m1 (object_segment_rows e streamID pointer sm ptr meta) = (r2, m')"
    by (cases "push_segments e m1 (object_segment_rows e streamID pointer sm ptr meta)")
  have r2: "r2 = None"
    using push_segments_ok[OF assms(5), of m1 "object_segment_rows e streamID pointer sm ptr meta"] p2 by simp
  have "insertObject e m encryptedPath pointer = (None, m')"
    using insertObject_push[OF assms(1,2,3,4)]
      p1 r1 p2 r2
    by simp
  moreover have "length (object_segment_rows e streamID pointer sm ptr meta) = nat (sint (NumberOfSegments sm))"
    using assms(2) by (simp add: object_segment_rows_def)
  moreover have "map (\<lambda>row. row ! 1) (object_segment_rows e streamID pointer sm ptr meta) =
        map (\<lambda>i. ArgUint64 (SegmentPosition_Encode e \<lparr>Part = 0, Segment = word_of_int i\<rparr>))
          ((sint (NumberOfSegments sm) - 1) # [0..sint (NumberOfSegments sm) - 2])"
    by (simp add: object_segment_rows_def segment_row_def)
  ultimately show ?thesis
    using p1 r1 p2 r2 by (simp add: object_row_def)
qed

text \<open>
  The theorem on the object \<open>a\<close> of three segments: one object row and the three segment
  rows with positions 2, 0, 1 end up in the buffers.
\<close>

theorem insertObject_emits_rows_witness:
  "Unmarshal_StreamMeta (ex_env [] None) (Metadata ptr_a) = Inr meta_a \<and>
   1 \<le> sint (NumberOfSegments meta_a) \<and>
   NewUUID_nth (ex_env [] None) (UUIDs (ex_migrator 500)) = Inr 100 \<and>
   insertObject (ex_env [] None) (ex_migrator 500) ''a'' ptr_a = (None, migrated_a) \<and>
   Objects migrated_a = row_a_object \<and>
   Segments migrated_a = rows_a_segments \<and>
   length (object_segment_rows (ex_env [] None) 100 ptr_a meta_a a_ptr a_meta) = 3 \<and>
   concat (object_segment_rows (ex_env [] None) 100 ptr_a meta_a a_ptr a_meta) = rows_a_segments \<and>
   map (\<lambda>row. row ! 1) (object_segment_rows (ex_env [] None) 100 ptr_a meta_a a_ptr a_meta) =
     [ArgUint64 2, ArgUint64 0, ArgUint64 1]"
proof -
  let ?e = "ex_env [] None"
  have h1: "Unmarshal_StreamMeta ?e (Metadata ptr_a) = Inr meta_a"
    by (simp add: ptr_a_def)
  have h2: "1 \<le> sint (NumberOfSegments meta_a)"
    by (simp add: meta_a_def)
  have h3: "NewUUID_nth ?e (UUIDs (ex_migrator 500)) = Inr 100"
    by simp
  have h5: "\<forall>log sql args. Metabase_Exec ?e log sql args = None"
    by simp
  from insertObject_emits_rows[OF h1 h2 h3 ex_fetch_a h5]
  have "length (object_segment_rows ?e 100 ptr_a meta_a a_ptr a_meta) =
          nat (sint (NumberOfSegments meta_a))
      \<and> map (\<lambda>row. row ! 1) (object_segment_rows ?e 100 ptr_a meta_a a_ptr a_meta) =
        map (\<lambda>i. ArgUint64 (SegmentPosition_Encode ?e \<lparr>Part = 0, Segment = word_of_int i\<rparr>))
          ((sint (NumberOfSegments meta_a) - 1) # [0..sint (NumberOfSegments meta_a) - 2])"
    by blast
  then have "length (object_segment_rows ?e 100 ptr_a meta_a a_ptr a_meta) = 3
      \<and> map (\<lambda>row. row ! 1) (object_segment_rows ?e 100 ptr_a meta_a a_ptr a_meta) =
          [ArgUint64 2, ArgUint64 0, ArgUint64 1]"
    by (simp add: meta_a_def upto_0_1)
  moreover have "concat (object_segment_rows ?e 100 ptr_a meta_a a_ptr a_meta) = rows_a_segments"
    by (simp add: ex_rows_a rows_a_segments_def)
  ultimately show ?thesis
    using h1 h2 h3 ex_insert_a[of "[]" None] by (simp add: migrated_a_def)
qed

text \<open>
  C6 as stated fails when a collaborator outside its hypotheses fails: with a batch size of
  one and a target database that rejects the statement, every record of \<open>a\<close> decodes and is
  found, yet the call ends with the error of the flush after the object row and no segment
  row is emitted.
\<close>

theorem failed_flush_emits_no_segment_row:
  "Unmarshal_StreamMeta (ex_env [] (Some (Error ''exec failed''))) (Metadata ptr_a) = Inr meta_a \<and>
   sint (NumberOfSegments meta_a) = 3 \<and>
   PointerDB_Get (ex_env [] (Some (Error ''exec failed''))) ''s0/bucket/a'' = Inr ''ptr-a0'' \<and>
   PointerDB_Get (ex_env [] (Some (Error ''exec failed''))) ''s1/bucket/a'' = Inr ''ptr-a1'' \<and>
   Unmarshal_Pointer (ex_env [] (Some (Error ''exec failed''))) ''ptr-a0'' = Inr ptr_a0 \<and>
   Unmarshal_Pointer (ex_env [] (Some (Error ''exec failed''))) ''ptr-a1'' = Inr ptr_a1 \<and>
   insertObject (ex_env [] (Some (Error ''exec failed''))) (ex_migrator 1) ''a'' ptr_a =
     (Some (Error ''exec failed''), failed_a) \<and>
   Segments failed_a = []"
  by (simp add: insertObject_def sendObjects_def Exec_def ptr_a_def meta_a_def ex_migrator_def
      failed_a_def row_a_object_def objectsArgs_def Let_def)

text \<open>
  C7 (amended). For every \<^verbatim>\<open>MigrateBucket\<close> run that reaches the end of the listing (with
  buffers of fewer than \<open>2\<^sup>6\<^sup>3\<close> values, as every Go slice has), the objects buffer, if it is
  not empty, is submitted exactly once more with the insert statement for exactly
  \<open>length / 10\<close> rows, and nothing is submitted for an empty buffer. If that statement fails,
  the run returns its error and the segments buffer is not submitted at all. Otherwise the
  segments buffer, if it is not empty, is submitted exactly once with the insert statement
  for exactly \<open>length / 8\<close> rows, and its error, if any, is returned. Neither buffer is
  cleared by these last flushes.
\<close>

theorem final_flush_statements:
  assumes "CreatePath e (ProjectID m) (- 1) (BucketName m) [] = Inr path"
    and "MigrateBucket_loop e path True [] m = Some (Done, m1)"
    and "length (Objects m1) < 2 ^ 63" and "length (Segments m1) < 2 ^ 63"
  shows "MigrateBucket e m =
    (let osql = objects_sql_head @ values_clause 10 (length (Objects m1) div 10);
         ssql = segments_sql_head @ values_clause 8 (length (Segments m1) div 8);
         ocalls = (if Objects m1 = [] then [] else [(osql, Objects m1)]);
         ofail = (if Objects m1 = [] then None
                  else Metabase_Exec e (Metabase m1) osql (Objects m1));
         sskip = (Segments m1 = [] \<or> ofail \<noteq> None);
         scalls = (if sskip then [] else [(ssql, Segments m1)]);
         sfail = (if sskip then None
                  else Metabase_Exec e (Metabase m1 @ ocalls) ssql (Segments m1))
     in Some (case ofail of
                Some err \<Rightarrow> Failed err
              | None \<Rightarrow> (case sfail of Some err \<Rightarrow> Failed err | None \<Rightarrow> Done),
              m1\<lparr>Metabase := Metabase m1 @ ocalls @ scalls\<rparr>))"
  using MigrateBucket_flush[OF assms(1,2)] flush_remaining_sized[OF assms(3,4), of e]
  by simp

text \<open>
  The theorem on a run over the object \<open>b\<close>: one object row and one segment row remain at the
  end of the listing, and one statement for one row is submitted for each.
\<close>

theorem final_flush_statements_witness:
  "CreatePath (ex_env [item_b] None) (ProjectID (ex_migrator 500)) (- 1)
     (BucketName (ex_migrator 500)) [] = Inr ''l/bucket'' \<and>
   MigrateBucket_loop (ex_env [item_b] None) ''l/bucket'' True [] (ex_migrator 500) =
     Some (Done, migrated_b) \<and>
   length (Objects migrated_b) < 2 ^ 63 \<and> length (Segments migrated_b) < 2 ^ 63 \<and>
   MigrateBucket (ex_env [item_b] None) (ex_migrator 500) =
     Some (Done, migrated_b\<lparr>Metabase :=
       [(objects_sql_head @ values_clause 10 1, row_b_object),
        (segments_sql_head @ values_clause 8 1, row_b_segment)]\<rparr>)"
proof -
  have h1: "CreatePath (ex_env [item_b] None) (ProjectID (ex_migrator 500)) (- 1)
     (BucketName (ex_migrator 500)) [] = Inr ''l/bucket''"
    by simp
  have h2: "MigrateBucket_loop (ex_env [item_b] None) ''l/bucket'' True [] (ex_migrator 500) =
     Some (Done, migrated_b)"
    by (rule ex_loop_b)
  have h3: "length (Objects migrated_b) < 2 ^ 63" by simp
  have h4: "length (Segments migrated_b) < 2 ^ 63" by simp
  from final_flush_statements[OF h1 h2 h3 h4] h1 h2 h3 h4 show ?thesis
    by (simp add: Let_def)
qed

text \<open>
  C7 as stated fails when the last flush of the objects fails: the segments buffer holds a
  row at the end of the listing, and only the objects statement is ever submitted.
\<close>

theorem failed_objects_flush_skips_segments:
  "MigrateBucket_loop (ex_env [item_b] (Some (Error ''exec failed''))) ''l/bucket'' True []
     (ex_migrator 500) = Some (Done, migrated_b) \<and>
   Objects migrated_b = row_b_object \<and> Segments migrated_b = row_b_segment \<and>
   row_b_segment \<noteq> [] \<and>
   MigrateBucket (ex_env [item_b] (Some (Error ''exec failed''))) (ex_migrator 500) =
     Some (Failed (Error ''exec failed''), migrated_b\<lparr>Metabase :=
       [(objects_sql_head @ values_clause 10 1, row_b_object)]\<rparr>)"
proof -
  let ?e = "ex_env [item_b] (Some (Error ''exec failed''))"
  have h1: "CreatePath ?e (ProjectID (ex_migrator 500)) (- 1) (BucketName (ex_migrator 500)) [] =
      Inr ''l/bucket''"
    by simp
  have h3: "length (Objects migrated_b) < 2 ^ 63" by simp
  have h4: "length (Segments migrated_b) < 2 ^ 63" by simp
  have "MigrateBucket ?e (ex_migrator 500) = flush_remaining ?e migrated_b"
    using h1 ex_loop_b by (rule MigrateBucket_flush)
  then show ?thesis
    using flush_remaining_sized[OF h3 h4, of ?e] ex_loop_b[of "Some (Error ''exec failed'')"]
    by (simp add: Let_def)
qed



text \<open>
  C10. The callback of \<^verbatim>\<open>MigrateBucket\<close> reads the first byte of the listed key without a
  length check. When every key of the listing is non-empty, no run of \<^verbatim>\<open>MigrateBucket\<close> ends
  in a panic, and a run whose listing ends returns (with an error or without); the callback
  never panics on a non-empty key. On an empty key whose record decodes the index
  expression is out of range: the callback panics, and so does the run that reaches that
  key.
\<close>

theorem first_byte_read_needs_nonempty_keys:
  "((\<forall>prefix startAfter. \<forall>item \<in> set (Items (PointerDB_List e prefix startAfter)).
        Key item \<noteq> []) \<longrightarrow>
      (\<forall>s m'. MigrateBucket e m \<noteq> Some (Panic s, m')))
   \<and> ((\<forall>prefix startAfter. \<forall>item \<in> set (Items (PointerDB_List e prefix startAfter)).
        Key item \<noteq> []) \<and>
      CreatePath e (ProjectID m) (- 1) (BucketName m) [] = Inr path \<and>
      after_pages e path k ([], m) = Some (lastKey, m0) \<and>
      ListV2Iterate e path lastKey m0 = (False, out, m1, lastKey1) \<and>
      length (Objects m1) < 2 ^ 63 \<and> length (Segments m1) < 2 ^ 63 \<longrightarrow>
        (\<exists>out' m'. MigrateBucket e m = Some (out', m') \<and> (\<forall>s. out' \<noteq> Panic s)))
   \<and> (Key item \<noteq> [] \<longrightarrow> (\<forall>s. fst (migrate_item e st item) \<noteq> Panic s))
   \<and> (Key item = [] \<and> Unmarshal_Pointer e (Value item) = Inr pointer \<longrightarrow>
        migrate_item e (m0, lastKey) item =
          (Panic ''index out of range [0] with length 0'', m0, lastKey))
   \<and> (CreatePath e (ProjectID m) (- 1) (BucketName m) [] = Inr path \<and>
      after_pages e path k ([], m) = Some (lastKey, m0) \<and>
      Items (PointerDB_List e path lastKey) = pre @ item # post \<and>
      iterate_items e pre (m0, lastKey) = (Done, m2, lastKey2) \<and>
      Unmarshal_Pointer e (Value item) = Inr pointer \<and> Key item = [] \<longrightarrow>
        MigrateBucket e m = Some (Panic ''index out of range [0] with length 0'', m2))"
proof (intro conjI impI)
  assume "\<forall>prefix startAfter. \<forall>item \<in> set (Items (PointerDB_List e prefix startAfter)).
        Key item \<noteq> []"
  then show "\<forall>s m'. MigrateBucket e m \<noteq> Some (Panic s, m')"
    using MigrateBucket_no_panic[of e m] by blast
next
  assume a: "(\<forall>prefix startAfter. \<forall>item \<in> set (Items (PointerDB_List e prefix startAfter)).
        Key item \<noteq> []) \<and>
      CreatePath e (ProjectID m) (- 1) (BucketName m) [] = Inr path \<and>
      after_pages e path k ([], m) = Some (lastKey, m0) \<and>
      ListV2Iterate e path lastKey m0 = (False, out, m1, lastKey1) \<and>
      length (Objects m1) < 2 ^ 63 \<and> length (Segments m1) < 2 ^ 63"
  then obtain r where r: "MigrateBucket e m = Some r"
    using MigrateBucket_returns[of e m path k lastKey m0 out m1 lastKey1] by blast
  obtain out' m' where "r = (out', m')" by (cases r)
  with r a MigrateBucket_no_panic[of e m _ m']
  show "\<exists>out' m'. MigrateBucket e m = Some (out', m') \<and> (\<forall>s. out' \<noteq> Panic s)"
    by blast
next
  assume "Key item \<noteq> []"
  then show "\<forall>s. fst (migrate_item e st item) \<noteq> Panic s"
    using migrate_item_no_panic[of item e st] by blast
next
  assume "Key item = [] \<and> Unmarshal_Pointer e (Value item) = Inr pointer"
  then show "migrate_item e (m0, lastKey) item =
          (Panic ''index out of range [0] with length 0'', m0, lastKey)"
    using migrate_item_panic[of item e pointer m0 lastKey] by blast
next
  assume "CreatePath e (ProjectID m) (- 1) (BucketName m) [] = Inr path \<and>
      after_pages e path k ([], m) = Some (lastKey, m0) \<and>
      Items (PointerDB_List e path lastKey) = pre @ item # post \<and>
      iterate_items e pre (m0, lastKey) = (Done, m2, lastKey2) \<and>
      Unmarshal_Pointer e (Value item) = Inr pointer \<and> Key item = []"
  then show "MigrateBucket e m = Some (Panic ''index out of range [0] with length 0'', m2)"
    using MigrateBucket_panics[of e m path k lastKey m0 pre item post m2 lastKey2 pointer] by blast
qed

text \<open>
  The theorem on the listing of the object \<open>b\<close>, whose run returns, and on a listing with an
  empty key, whose run panics.
\<close>

theorem first_byte_read_needs_nonempty_keys_witness:
  "Items (PointerDB_List (ex_env [item_b] None) ''l/bucket'' []) = [item_b] \<and>
   Key item_b \<noteq> [] \<and>
   (\<forall>s m'. MigrateBucket (ex_env [item_b] None) (ex_migrator 500) \<noteq> Some (Panic s, m')) \<and>
   (\<exists>out' m'. MigrateBucket (ex_env [item_b] None) (ex_migrator 500) = Some (out', m') \<and>
       (\<forall>s. out' \<noteq> Panic s)) \<and>
   Key item_nokey = [] \<and>
   Unmarshal_Pointer (ex_env [item_nokey] None) (Value item_nokey) = Inr ptr_b \<and>
   MigrateBucket (ex_env [item_nokey] None) (ex_migrator 500) =
     Some (Panic ''index out of range [0] with length 0'', ex_migrator 500)"
proof -
  let ?e = "ex_env [item_b] None"
  let ?f = "ex_env [item_nokey] None"
  have keys: "\<forall>prefix startAfter. \<forall>item \<in> set (Items (PointerDB_List ?e prefix startAfter)).
        Key item \<noteq> []"
    by (simp add: ex_List_def item_b_def)
  have path: "CreatePath ?e (ProjectID (ex_migrator 500)) (- 1) (BucketName (ex_migrator 500)) [] =
      Inr ''l/bucket''" by simp
  have pages: "after_pages ?e ''l/bucket'' 0 ([], ex_migrator 500) = Some ([], ex_migrator 500)"
    by simp
  have page: "ListV2Iterate ?e ''l/bucket'' [] (ex_migrator 500) = (False, Done, migrated_b, ''/b'')"
    by (simp add: ListV2Iterate_def ex_List_def migrate_item_def item_b_def ex_insert_b)
  have len: "length (Objects migrated_b) < 2 ^ 63" "length (Segments migrated_b) < 2 ^ 63"
    by simp_all
  note t = first_byte_read_needs_nonempty_keys[of ?e "ex_migrator 500" "''l/bucket''" 0 "[]"
      "ex_migrator 500" Done migrated_b "''/b''"]
  from t keys have safe: "\<forall>s m'. MigrateBucket ?e (ex_migrator 500) \<noteq> Some (Panic s, m')"
    by blast
  from t keys path pages page len
  have ret: "\<exists>out' m'. MigrateBucket ?e (ex_migrator 500) = Some (out', m') \<and>
       (\<forall>s. out' \<noteq> Panic s)"
    by blast
  have fpath: "CreatePath ?f (ProjectID (ex_migrator 500)) (- 1) (BucketName (ex_migrator 500)) [] =
      Inr ''l/bucket''" by simp
  have fpages: "after_pages ?f ''l/bucket'' 0 ([], ex_migrator 500) = Some ([], ex_migrator 500)"
    by simp
  have fitems: "Items (PointerDB_List ?f ''l/bucket'' []) = [] @ item_nokey # []"
    by (simp add: ex_List_def)
  have fpre: "iterate_items ?f [] (ex_migrator 500, []) = (Done, ex_migrator 500, [])"
    by simp
  have fdec: "Unmarshal_Pointer ?f (Value item_nokey) = Inr ptr_b" by (simp add: item_nokey_def)
  have fkey: "Key item_nokey = []" by (simp add: item_nokey_def)
  from first_byte_read_needs_nonempty_keys[of ?f "ex_migrator 500" "''l/bucket''" 0 "[]"
      "ex_migrator 500" _ _ _ item_nokey _ ptr_b "[]" "[]" "ex_migrator 500" "[]"]
    fpath fpages fitems fpre fdec fkey
  have panic: "MigrateBucket ?f (ex_migrator 500) =
     Some (Panic ''index out of range [0] with length 0'', ex_migrator 500)"
    by blast
  have shown: "Items (PointerDB_List ?e ''l/bucket'' []) = [item_b] \<and> Key item_b \<noteq> []"
    by (simp add: ex_List_def item_b_def)
  from shown safe ret fkey fdec panic show ?thesis by simp
qed

end
